theory Spec2Isabelle
  imports Complex_Main
begin

section \<open>Error taxonomy (exceptions/errors.py)\<close>

text \<open>
  Every exception class that the modelled code raises is a constructor. A constructor
  carries the attributes the class stores (field, message index, code, wait time, queue
  size and capacity, retry budget and last error, model id, requested and allowed token
  counts); the human-readable message text is not modelled. \<open>MessageFormatError\<close> is
  the subclass of \<open>ValidationError\<close> with its own constructor, \<open>LockError\<close> the subclass
  of \<open>ThreadingError\<close>. \<open>ExternalError\<close> and \<open>AsyncioTimeoutError\<close> stand for what a
  submitted callable may raise.
\<close>

datatype error =
    ValidationError string
  | MessageFormatError nat
  | LockError
  | ThreadingError
  | RateLimitExceeded string real
  | QueueFullError int int
  | RetryError int error
  | RequestTimeoutError real
  | InvalidModel string
  | TokenLimitExceeded int int
  | TokenCounterError
  | EncodingError string string
  | TextGenerationError string
  | ExternalError string
  | AsyncioTimeoutError

section \<open>Text helpers of the Python runtime\<close>

text \<open>
  Strings are lists of 8-bit characters, so the helpers below are Python's on the
  Latin-1 range. \<open>py_int\<close> is CPython's \<open>int(s)\<close> for a string argument. The white
  space it skips at both ends is tab, line feed, vertical tab, form feed, carriage
  return and space, and beyond ASCII the next-line and no-break-space characters; the
  separators 28 to 31, which \<open>str.strip\<close> removes, are not skipped and make the string
  invalid. One sign is allowed, the digits may be grouped by single underscores, and a
  string of more than 4300 digits is refused (the default of
  \<open>sys.get_int_max_str_digits()\<close>): \<open>py_nat\<close> counts the digits before \<open>py_digits\<close>
  reads them. \<open>None\<close> stands for the \<open>ValueError\<close>.
\<close>

definition is_space :: "char \<Rightarrow> bool" where
  "is_space c = ((of_char c :: nat) \<in> {9, 10, 11, 12, 13, 32, 133, 160})"

definition is_digit :: "char \<Rightarrow> bool" where
  "is_digit c = (c \<in> set ''0123456789'')"

definition digit_val :: "char \<Rightarrow> nat" where
  "digit_val c = of_char c - 48"

definition is_alpha :: "char \<Rightarrow> bool" where
  "is_alpha c = (c \<in> set ''abcdefghijklmnopqrstuvwxyzABCDEFGHIJKLMNOPQRSTUVWXYZ'')"

definition lower_char :: "char \<Rightarrow> char" where
  "lower_char c =
     (case map_of (zip ''ABCDEFGHIJKLMNOPQRSTUVWXYZ'' ''abcdefghijklmnopqrstuvwxyz'') c of
        Some l \<Rightarrow> l | None \<Rightarrow> c)"

definition lower :: "string \<Rightarrow> string" where
  "lower s = map lower_char s"

definition strip :: "string \<Rightarrow> string" where
  "strip s = rev (dropWhile is_space (rev (dropWhile is_space s)))"

fun py_digits :: "nat \<Rightarrow> string \<Rightarrow> nat option" where
  "py_digits acc [] = Some acc"
| "py_digits acc [c] = (if is_digit c then Some (10 * acc + digit_val c) else None)"
| "py_digits acc (c # d # cs) =
     (if is_digit c then py_digits (10 * acc + digit_val c) (d # cs)
      else if c = CHR ''_'' \<and> is_digit d then py_digits (10 * acc + digit_val d) cs
      else None)"

definition int_max_str_digits :: nat where
  "int_max_str_digits = 4300"

definition py_nat :: "string \<Rightarrow> nat option" where
  "py_nat s =
     (if length (filter is_digit s) > int_max_str_digits then None
      else case s of
             [] \<Rightarrow> None
           | c # cs \<Rightarrow> if is_digit c then py_digits (digit_val c) cs else None)"

definition py_int :: "string \<Rightarrow> int option" where
  "py_int s =
     (case strip s of
        [] \<Rightarrow> None
      | c # cs \<Rightarrow>
          if c = CHR ''-'' then map_option (\<lambda>n. - int n) (py_nat cs)
          else if c = CHR ''+'' then map_option int (py_nat cs)
          else map_option int (py_nat (c # cs)))"

fun dec_value :: "nat \<Rightarrow> string \<Rightarrow> nat" where
  "dec_value acc [] = acc"
| "dec_value acc (c # cs) = dec_value (10 * acc + digit_val c) cs"

section \<open>Rate-limit tracker (core/rate\_limit\_handler.py)\<close>

text \<open>
  The handler's attributes. Limits and remaining amounts are Python integers; reset
  times and \<open>last_update\<close> are clock readings, taken as real numbers (the rounding of
  binary floating point is not modelled). The lock only serialises the calls and is
  left out: every operation below is one critical section.
\<close>

record rate_limit_state =
  request_limit :: int
  request_remaining :: int
  request_reset_time :: real
  token_limit :: int
  token_remaining :: int
  token_reset_time :: real
  audio_seconds_limit :: int
  audio_seconds_remaining :: int
  audio_seconds_reset_time :: real
  last_update :: real

definition init_handler :: rate_limit_state where
  "init_handler =
     \<lparr>request_limit = 0, request_remaining = 0, request_reset_time = 0,
      token_limit = 0, token_remaining = 0, token_reset_time = 0,
      audio_seconds_limit = 0, audio_seconds_remaining = 0, audio_seconds_reset_time = 0,
      last_update = 0\<rparr>"

text \<open>
  \<open>_parse_time_string\<close>: the regular expression \<open>(\d+(?:\.\d+)?)([a-zA-Z]+)\<close> is matched
  at the start of the string. Its greedy reading is the only one that can succeed: a
  shorter run of digits is followed by a digit, and a skipped fraction by a dot, neither
  of which is a letter.
\<close>

definition parse_time_string :: "string \<Rightarrow> real" where
  "parse_time_string time_str =
     (if time_str = [] then 0
      else
        let ds = takeWhile is_digit time_str;
            r1 = dropWhile is_digit time_str;
            fs = (case r1 of [] \<Rightarrow> []
                  | c # t \<Rightarrow> if c = CHR ''.'' then takeWhile is_digit t else []);
            r2 = (if fs = [] then r1 else dropWhile is_digit (tl r1));
            letters = takeWhile is_alpha r2;
            v = real (dec_value 0 ds) + real (dec_value 0 fs) / 10 ^ length fs;
            unit = lower letters
        in if ds = [] \<or> letters = [] then 0
           else if unit = ''s'' then v
           else if unit = ''ms'' then v / 1000
           else if unit = ''m'' then v * 60
           else if unit = ''h'' then v * 3600
           else 0)"

text \<open>
  \<open>update_from_headers\<close>. The header bag is a dictionary from names to strings, kept as
  an association list. The nine blocks of the method run in source order; a block whose
  header is absent does nothing, a block whose value does not parse raises
  \<open>ValidationError\<close>, and the assignments of the blocks before it stay. The whole body
  sits in \<open>try: ... except Exception as e: raise LockError(...)\<close>, so the caller sees
  a \<open>LockError\<close>. The clock readings inside one call are taken at the same instant
  \<open>now\<close>. The hook \<open>_on_limits_changed\<close> of this class does nothing.
\<close>

type_synonym headers = "(string \<times> string) list"

definition int_header ::
  "headers \<Rightarrow> string \<Rightarrow> (int \<Rightarrow> rate_limit_state \<Rightarrow> rate_limit_state) \<Rightarrow>
   rate_limit_state \<Rightarrow> error + rate_limit_state" where
  "int_header hs key assign st =
     (case map_of hs key of
        None \<Rightarrow> Inr st
      | Some v \<Rightarrow> (case py_int v of
                    None \<Rightarrow> Inl (ValidationError key)
                  | Some n \<Rightarrow> Inr (assign n st)))"

definition reset_header ::
  "headers \<Rightarrow> string \<Rightarrow> (real \<Rightarrow> rate_limit_state \<Rightarrow> rate_limit_state) \<Rightarrow> real \<Rightarrow>
   rate_limit_state \<Rightarrow> error + rate_limit_state" where
  "reset_header hs key assign now st =
     (case map_of hs key of
        None \<Rightarrow> Inr st
      | Some v \<Rightarrow> Inr (assign (now + parse_time_string v) st))"

fun run_blocks ::
  "(rate_limit_state \<Rightarrow> error + rate_limit_state) list \<Rightarrow> rate_limit_state \<Rightarrow>
   (error + unit) \<times> rate_limit_state" where
  "run_blocks [] st = (Inr (), st)"
| "run_blocks (b # bs) st =
     (case b st of Inl e \<Rightarrow> (Inl e, st) | Inr st' \<Rightarrow> run_blocks bs st')"

definition header_blocks ::
  "real \<Rightarrow> headers \<Rightarrow> (rate_limit_state \<Rightarrow> error + rate_limit_state) list" where
  "header_blocks now hs =
     [int_header hs ''x-ratelimit-limit-requests'' (\<lambda>n s. s\<lparr>request_limit := n\<rparr>),
      int_header hs ''x-ratelimit-remaining-requests'' (\<lambda>n s. s\<lparr>request_remaining := n\<rparr>),
      reset_header hs ''x-ratelimit-reset-requests''
        (\<lambda>t s. s\<lparr>request_reset_time := t\<rparr>) now,
      int_header hs ''x-ratelimit-limit-tokens'' (\<lambda>n s. s\<lparr>token_limit := n\<rparr>),
      int_header hs ''x-ratelimit-remaining-tokens'' (\<lambda>n s. s\<lparr>token_remaining := n\<rparr>),
      reset_header hs ''x-ratelimit-reset-tokens''
        (\<lambda>t s. s\<lparr>token_reset_time := t\<rparr>) now,
      int_header hs ''x-ratelimit-limit-audio-seconds''
        (\<lambda>n s. s\<lparr>audio_seconds_limit := n\<rparr>),
      int_header hs ''x-ratelimit-remaining-audio-seconds''
        (\<lambda>n s. s\<lparr>audio_seconds_remaining := n\<rparr>),
      reset_header hs ''x-ratelimit-reset-audio-seconds''
        (\<lambda>t s. s\<lparr>audio_seconds_reset_time := t\<rparr>) now]"

definition update_from_headers ::
  "real \<Rightarrow> headers \<Rightarrow> rate_limit_state \<Rightarrow> (error + unit) \<times> rate_limit_state" where
  "update_from_headers now hs st =
     (if hs = [] then (Inl (ValidationError ''headers''), st)
      else
        (case run_blocks (header_blocks now hs) st of
           (Inl e, st') \<Rightarrow> (Inl LockError, st')
         | (Inr u, st') \<Rightarrow> (Inr (), st'\<lparr>last_update := now\<rparr>)))"

text \<open>
  The lazy reset: the three \<open>if\<close> blocks that \<open>can_proceed\<close>, \<open>wait_if_needed\<close> (after
  its sleep) and \<open>get_status\<close> each run on entry, in source order.
\<close>

definition lazy_reset :: "real \<Rightarrow> rate_limit_state \<Rightarrow> rate_limit_state" where
  "lazy_reset current_time st =
     (let s1 = (if request_reset_time st > 0 \<and> current_time \<ge> request_reset_time st
                then st\<lparr>request_remaining := request_limit st, request_reset_time := 0\<rparr>
                else st);
          s2 = (if token_reset_time s1 > 0 \<and> current_time \<ge> token_reset_time s1
                then s1\<lparr>token_remaining := token_limit s1, token_reset_time := 0\<rparr>
                else s1);
          s3 = (if audio_seconds_reset_time s2 > 0
                   \<and> current_time \<ge> audio_seconds_reset_time s2
                then s2\<lparr>audio_seconds_remaining := audio_seconds_limit s2,
                        audio_seconds_reset_time := 0\<rparr>
                else s2)
      in s3)"

text \<open>
  \<open>can_proceed(tokens, requests, audio_seconds)\<close>: the three argument checks raise
  outside the \<open>try\<close> block; nothing inside it can raise.
\<close>

definition can_proceed ::
  "real \<Rightarrow> int \<Rightarrow> int \<Rightarrow> int \<Rightarrow> rate_limit_state \<Rightarrow> (error + bool) \<times> rate_limit_state" where
  "can_proceed current_time tokens requests audio_seconds st =
     (if tokens < 0 then (Inl (ValidationError ''tokens''), st)
      else if requests < 0 then (Inl (ValidationError ''requests''), st)
      else if audio_seconds < 0 then (Inl (ValidationError ''audio_seconds''), st)
      else
        let s = lazy_reset current_time st
        in if request_limit s > 0 \<and> request_remaining s < requests then (Inr False, s)
           else if token_limit s > 0 \<and> token_remaining s < tokens then (Inr False, s)
           else if audio_seconds_limit s > 0 \<and> audio_seconds_remaining s < audio_seconds
           then (Inr False, s)
           else (Inr True, s))"

text \<open>
  \<open>wait_if_needed\<close>. \<open>wait_time_locked\<close> is the body of the first \<open>with self.lock\<close>
  block: it computes the wait and raises \<open>RateLimitExceeded\<close> above 300 seconds. That
  block is enclosed by \<open>except Exception as e: raise LockError(...)\<close>, which catches the
  \<open>RateLimitExceeded\<close> as well. The second component of the result is the duration
  handed to \<open>time.sleep\<close>, if the call sleeps; \<open>wake\<close> is the clock reading after the
  sleep.
\<close>

definition wait_time_locked :: "real \<Rightarrow> rate_limit_state \<Rightarrow> error + real" where
  "wait_time_locked current_time st =
     (let w0 = 0;
          w1 = (if request_reset_time st > 0 \<and> current_time < request_reset_time st
                then max w0 (request_reset_time st - current_time) else w0);
          w2 = (if token_reset_time st > 0 \<and> current_time < token_reset_time st
                then max w1 (token_reset_time st - current_time) else w1);
          w3 = (if audio_seconds_reset_time st > 0
                   \<and> current_time < audio_seconds_reset_time st
                then max w2 (audio_seconds_reset_time st - current_time) else w2);
          w4 = (if w3 = 0 then 60 else w3)
      in if w4 > 300 then Inl (RateLimitExceeded ''RATE_LIMIT_WAIT_TOO_LONG'' w4)
         else Inr w4)"

definition wait_if_needed ::
  "real \<Rightarrow> real \<Rightarrow> rate_limit_state \<Rightarrow> (error + unit) \<times> real option \<times> rate_limit_state" where
  "wait_if_needed current_time wake st =
     (case wait_time_locked current_time st of
        Inl e \<Rightarrow> (Inl LockError, None, st)
      | Inr wait_time \<Rightarrow>
          if wait_time > 0 then (Inr (), Some wait_time, lazy_reset wake st)
          else (Inr (), None, st))"

text \<open>\<open>get_status\<close>: the lazy reset, then a snapshot of the attributes.\<close>

record rate_limit_status =
  snapshot :: rate_limit_state
  status_current_time :: real
  has_rate_limit_info :: bool
  time_since_update :: real

definition has_rate_limit_info_of :: "rate_limit_state \<Rightarrow> bool" where
  "has_rate_limit_info_of st = (request_limit st > 0 \<or> token_limit st > 0 \<or> last_update st > 0)"

definition get_status :: "real \<Rightarrow> rate_limit_state \<Rightarrow> rate_limit_status \<times> rate_limit_state" where
  "get_status current_time st =
     (let s = lazy_reset current_time st
      in (\<lparr>snapshot = s, status_current_time = current_time,
           has_rate_limit_info = has_rate_limit_info_of s,
           time_since_update = (if last_update s > 0 then current_time - last_update s else 0)\<rparr>,
          s))"

section \<open>Quota windows: the specification's view of the tracker\<close>

text \<open>
  The specification speaks of three quota windows, each with a limit, a remaining
  amount and a reset deadline. The definitions of this section follow its words; the
  theorems relate them to the handler's attributes.
\<close>

record quota_window =
  w_limit :: int
  w_remaining :: int
  w_reset_at :: real

definition requests_window :: "rate_limit_state \<Rightarrow> quota_window" where
  "requests_window st =
     \<lparr>w_limit = request_limit st, w_remaining = request_remaining st,
      w_reset_at = request_reset_time st\<rparr>"

definition tokens_window :: "rate_limit_state \<Rightarrow> quota_window" where
  "tokens_window st =
     \<lparr>w_limit = token_limit st, w_remaining = token_remaining st,
      w_reset_at = token_reset_time st\<rparr>"

definition audio_window :: "rate_limit_state \<Rightarrow> quota_window" where
  "audio_window st =
     \<lparr>w_limit = audio_seconds_limit st, w_remaining = audio_seconds_remaining st,
      w_reset_at = audio_seconds_reset_time st\<rparr>"

definition reset_window :: "real \<Rightarrow> quota_window \<Rightarrow> quota_window" where
  "reset_window now w =
     (if w_reset_at w > 0 \<and> w_reset_at w \<le> now
      then w\<lparr>w_remaining := w_limit w, w_reset_at := 0\<rparr> else w)"

definition admits :: "quota_window \<Rightarrow> int \<Rightarrow> bool" where
  "admits w amount = (w_limit w > 0 \<longrightarrow> amount \<le> w_remaining w)"

definition quota_inv :: "rate_limit_state \<Rightarrow> bool" where
  "quota_inv st =
     (0 \<le> request_remaining st \<and> request_remaining st \<le> request_limit st \<and>
      0 \<le> token_remaining st \<and> token_remaining st \<le> token_limit st \<and>
      0 \<le> audio_seconds_remaining st \<and> audio_seconds_remaining st \<le> audio_seconds_limit st)"

definition lazy_reset_example :: rate_limit_state where
  "lazy_reset_example =
     init_handler\<lparr>request_limit := 10, request_remaining := 0, request_reset_time := 1001\<rparr>"

definition long_wait_example :: rate_limit_state where
  "long_wait_example = init_handler\<lparr>request_limit := 10, request_reset_time := 1301\<rparr>"

text \<open>
  The states of a tracker that starts from \<open>__init__\<close> and then sees header
  ingestions and queries in any order, with any clock readings.
\<close>

inductive reachable :: "rate_limit_state \<Rightarrow> bool" where
  start: "reachable init_handler"
| ingest: "reachable st \<Longrightarrow> reachable (snd (update_from_headers now hs st))"
| ask: "reachable st \<Longrightarrow> reachable (snd (can_proceed now tokens requests audio_seconds st))"
| wait: "reachable st \<Longrightarrow> reachable (snd (snd (wait_if_needed now wake st)))"
| status: "reachable st \<Longrightarrow> reachable (snd (get_status now st))"

definition window_headers_ok :: "headers \<Rightarrow> string \<Rightarrow> string \<Rightarrow> bool" where
  "window_headers_ok hs limit_key remaining_key =
     (case (map_of hs limit_key, map_of hs remaining_key) of
        (None, None) \<Rightarrow> True
      | (Some l, Some r) \<Rightarrow>
          (case (py_int l, py_int r) of
             (Some a, Some b) \<Rightarrow> 0 \<le> b \<and> b \<le> a
           | _ \<Rightarrow> False)
      | _ \<Rightarrow> False)"

definition consistent_headers :: "headers \<Rightarrow> bool" where
  "consistent_headers hs =
     (window_headers_ok hs ''x-ratelimit-limit-requests'' ''x-ratelimit-remaining-requests'' \<and>
      window_headers_ok hs ''x-ratelimit-limit-tokens'' ''x-ratelimit-remaining-tokens'' \<and>
      window_headers_ok hs ''x-ratelimit-limit-audio-seconds''
        ''x-ratelimit-remaining-audio-seconds'')"

inductive reachable_consistent :: "rate_limit_state \<Rightarrow> bool" where
  c_start: "reachable_consistent init_handler"
| c_ingest: "reachable_consistent st \<Longrightarrow> consistent_headers hs \<Longrightarrow>
     reachable_consistent (snd (update_from_headers now hs st))"
| c_ask: "reachable_consistent st \<Longrightarrow>
     reachable_consistent (snd (can_proceed now tokens requests audio_seconds st))"
| c_wait: "reachable_consistent st \<Longrightarrow>
     reachable_consistent (snd (snd (wait_if_needed now wake st)))"
| c_status: "reachable_consistent st \<Longrightarrow> reachable_consistent (snd (get_status now st))"

definition inconsistent_example :: rate_limit_state where
  "inconsistent_example =
     snd (update_from_headers 0 [(''x-ratelimit-remaining-requests'', ''5'')] init_handler)"

definition consistent_example_headers :: headers where
  "consistent_example_headers =
     [(''x-ratelimit-limit-requests'', ''10''), (''x-ratelimit-remaining-requests'', ''3''),
      (''x-ratelimit-reset-requests'', ''60s'')]"

definition consistent_example :: rate_limit_state where
  "consistent_example =
     snd (can_proceed 1001 0 1 0
            (snd (update_from_headers 1000 consistent_example_headers init_handler)))"

section \<open>Model registry (core/model\_registry.py)\<close>

text \<open>
  The registry's table \<open>_models\<close> maps a model id to its descriptor. The stored type is
  one of the two strings \<open>chat\<close> and \<open>stt\<close>; \<open>max_tokens\<close> holds the catalog's context
  window and is absent when the catalog gives none. The catalog fetch is a network
  effect outside the model: the queries below read the table as it stands.
\<close>

datatype model_kind = Chat | Stt

record model_info =
  model_type :: model_kind
  max_tokens :: "int option"
  max_completion_tokens :: "int option"

type_synonym registry = "string \<Rightarrow> model_info option"

definition get_model_info :: "registry \<Rightarrow> string \<Rightarrow> error + model_info" where
  "get_model_info reg model =
     (if model = [] then Inl (ValidationError ''model'')
      else case reg model of
             None \<Rightarrow> Inl (InvalidModel model)
           | Some info \<Rightarrow> Inr info)"

definition get_type :: "registry \<Rightarrow> string \<Rightarrow> error + model_kind" where
  "get_type reg model =
     (case get_model_info reg model of Inl e \<Rightarrow> Inl e | Inr info \<Rightarrow> Inr (model_type info))"

definition is_model_supported :: "registry \<Rightarrow> string \<Rightarrow> error + bool" where
  "is_model_supported reg model =
     (if model = [] then Inl (ValidationError ''model'') else Inr (reg model \<noteq> None))"

definition get_max_tokens :: "registry \<Rightarrow> string \<Rightarrow> error + int option" where
  "get_max_tokens reg model =
     (case get_model_info reg model of Inl e \<Rightarrow> Inl e | Inr info \<Rightarrow> Inr (max_tokens info))"

section \<open>Token counter (core/token\_counter.py)\<close>

text \<open>
  The tokenizer library is outside the repository and is a parameter: \<open>tiktoken\<close> maps an
  encoding name to an encoder, \<open>None\<close> when \<open>get_encoding\<close> raises; an encoder maps a
  text to its tokens, \<open>None\<close> when \<open>encode\<close> raises (it does on text that contains a
  special token). The per-model cache of encoders only memoises \<open>get_encoding\<close> and is
  left out.
\<close>

type_synonym encoder = "string \<Rightarrow> nat list option"
type_synonym tiktoken = "string \<Rightarrow> encoder option"

definition model_to_encoding :: "(string \<times> string) list" where
  "model_to_encoding =
     [(''llama3-8b-8192'', ''cl100k_base''),
      (''llama3-70b-8192'', ''cl100k_base''),
      (''llama3.1-8b-8192'', ''cl100k_base''),
      (''llama3.1-70b-8192'', ''cl100k_base''),
      (''llama3.1-405b-8192'', ''cl100k_base''),
      (''mixtral-8x7b-32768'', ''cl100k_base''),
      (''gemma2-9b-it'', ''cl100k_base''),
      (''gemma2-27b-it'', ''cl100k_base''),
      (''whisper-large-v3'', ''cl100k_base'')]"

definition get_encoder :: "tiktoken \<Rightarrow> string \<Rightarrow> error + encoder" where
  "get_encoder tk model =
     (let encoding_name = (case map_of model_to_encoding model of
                             Some n \<Rightarrow> n | None \<Rightarrow> ''cl100k_base'')
      in case tk encoding_name of
           None \<Rightarrow> Inl (EncodingError model encoding_name)
         | Some enc \<Rightarrow> Inr enc)"

text \<open>\<open>count_tokens(prompt, model)\<close> for a string prompt.\<close>

definition count_tokens :: "tiktoken \<Rightarrow> registry \<Rightarrow> string \<Rightarrow> string \<Rightarrow> error + int" where
  "count_tokens tk reg prompt model =
     (if prompt = [] then Inl (ValidationError ''prompt'')
      else case is_model_supported reg model of
        Inl e \<Rightarrow> Inl e
      | Inr False \<Rightarrow> Inl (InvalidModel model)
      | Inr True \<Rightarrow>
          (case get_type reg model of
             Inl e \<Rightarrow> Inl e
           | Inr Stt \<Rightarrow> Inr 0
           | Inr Chat \<Rightarrow>
               (case get_encoder tk model of
                  Inl e \<Rightarrow> Inl (EncodingError model ''unknown'')
                | Inr enc \<Rightarrow>
                    (case enc prompt of
                       None \<Rightarrow> Inl (EncodingError model ''unknown'')
                     | Some tokens \<Rightarrow> Inr (int (length tokens))))))"

text \<open>
  The elements of a message list are arbitrary Python values; a dictionary is an
  association list from string keys to values.
\<close>

datatype pyval =
    PyNone
  | PyBool bool
  | PyInt int
  | PyStr string
  | PyList "pyval list"
  | PyDict "(string \<times> pyval) list"

definition dict_get :: "pyval \<Rightarrow> string \<Rightarrow> pyval option" where
  "dict_get v key = (case v of PyDict kvs \<Rightarrow> map_of kvs key | _ \<Rightarrow> None)"

definition formatted_message :: "string \<Rightarrow> string \<Rightarrow> string" where
  "formatted_message role content =
     ''<|im_start|>'' @ role @ [CHR 0x0A] @ content @ ''<|im_end|>''"

definition assistant_prelude :: string where
  "assistant_prelude = ''<|im_start|>assistant'' @ [CHR 0x0A]"

text \<open>
  The \<open>for i, message in enumerate(messages)\<close> loop of \<open>count_message_tokens\<close>, with the
  index and the running total as arguments.
\<close>

fun message_loop :: "encoder \<Rightarrow> string \<Rightarrow> nat \<Rightarrow> pyval list \<Rightarrow> int \<Rightarrow> error + int" where
  "message_loop enc model i [] total_tokens = Inr total_tokens"
| "message_loop enc model i (message # rest) total_tokens =
     (case message of
        PyDict kvs \<Rightarrow>
          (case (map_of kvs ''role'', map_of kvs ''content'') of
             (Some role, Some content) \<Rightarrow>
               (case content of
                  PyStr c \<Rightarrow>
                    (case role of
                       PyStr r \<Rightarrow>
                         (case enc (formatted_message r c) of
                            None \<Rightarrow> Inl (EncodingError model ''unknown'')
                          | Some tokens \<Rightarrow>
                              message_loop enc model (Suc i) rest
                                (total_tokens + int (length tokens)))
                     | _ \<Rightarrow> Inl (MessageFormatError i))
                | _ \<Rightarrow> Inl (MessageFormatError i))
           | _ \<Rightarrow> Inl (MessageFormatError i))
      | _ \<Rightarrow> Inl (MessageFormatError i))"

text \<open>
  \<open>count_message_tokens(messages, model)\<close> for a list argument. The checks come in source
  order: empty list, supported model, the early return for speech-to-text models, the
  encoder, the loop, and the assistant prelude after a last message of another role.
\<close>

definition count_message_tokens ::
  "tiktoken \<Rightarrow> registry \<Rightarrow> pyval list \<Rightarrow> string \<Rightarrow> error + int" where
  "count_message_tokens tk reg messages model =
     (if messages = [] then Inl (ValidationError ''messages'')
      else case is_model_supported reg model of
        Inl e \<Rightarrow> Inl e
      | Inr False \<Rightarrow> Inl (InvalidModel model)
      | Inr True \<Rightarrow>
          (case get_type reg model of
             Inl e \<Rightarrow> Inl e
           | Inr Stt \<Rightarrow> Inr 0
           | Inr Chat \<Rightarrow>
               (case get_encoder tk model of
                  Inl e \<Rightarrow> Inl (EncodingError model ''unknown'')
                | Inr enc \<Rightarrow>
                    (case message_loop enc model 0 messages 0 of
                       Inl e \<Rightarrow> Inl e
                     | Inr total_tokens \<Rightarrow>
                         if dict_get (last messages) ''role'' \<noteq> Some (PyStr ''assistant'')
                         then (case enc assistant_prelude of
                                 None \<Rightarrow> Inl (EncodingError model ''unknown'')
                               | Some assistant_token \<Rightarrow>
                                   Inr (total_tokens + int (length assistant_token)))
                         else Inr total_tokens))))"

text \<open>
  \<open>validate_token_limit(messages, model, max_tokens)\<close>: a given \<open>max_tokens\<close> is the limit
  itself; without it the registry's context window is the limit.
\<close>

definition validate_token_limit ::
  "tiktoken \<Rightarrow> registry \<Rightarrow> pyval list \<Rightarrow> string \<Rightarrow> int option \<Rightarrow> error + bool" where
  "validate_token_limit tk reg messages model max_tokens_arg =
     (case is_model_supported reg model of
        Inl e \<Rightarrow> Inl e
      | Inr False \<Rightarrow> Inl (InvalidModel model)
      | Inr True \<Rightarrow>
          (case (case max_tokens_arg of
                   None \<Rightarrow> get_max_tokens reg model
                 | Some m \<Rightarrow> Inr (Some m)) of
             Inl e \<Rightarrow> Inl e
           | Inr None \<Rightarrow> Inr True
           | Inr (Some m) \<Rightarrow>
               if m < 0 then Inl (ValidationError ''max_tokens'')
               else (case count_message_tokens tk reg messages model of
                       Inl e \<Rightarrow> Inl TokenCounterError
                     | Inr current_tokens \<Rightarrow>
                         if current_tokens > m
                         then Inl (TokenLimitExceeded current_tokens m)
                         else Inr True)))"

section \<open>Chat handler: the token check before dispatch (handlers/text\_generation.py)\<close>

text \<open>
  \<open>_check_token_limits(messages, model, max_tokens)\<close> is what \<open>generate\<close> runs before it
  posts the payload. \<open>check_token_limits_body\<close> is the \<open>try\<close> block; the handler lets a
  \<open>TokenLimitExceeded\<close> through and wraps every other exception.
\<close>

definition check_token_limits_body ::
  "tiktoken \<Rightarrow> registry \<Rightarrow> pyval list \<Rightarrow> string \<Rightarrow> int \<Rightarrow> error + unit" where
  "check_token_limits_body tk reg messages model max_tokens_arg =
     (case count_message_tokens tk reg messages model of
        Inl e \<Rightarrow> Inl e
      | Inr current_tokens \<Rightarrow>
          (case get_max_tokens reg model of
             Inl e \<Rightarrow> Inl e
           | Inr None \<Rightarrow> Inr ()
           | Inr (Some model_max_tokens) \<Rightarrow>
               let total_tokens = current_tokens + max_tokens_arg
               in if total_tokens > model_max_tokens
                  then Inl (TokenLimitExceeded total_tokens model_max_tokens)
                  else Inr ()))"

definition check_token_limits ::
  "tiktoken \<Rightarrow> registry \<Rightarrow> pyval list \<Rightarrow> string \<Rightarrow> int \<Rightarrow> error + unit" where
  "check_token_limits tk reg messages model max_tokens_arg =
     (case check_token_limits_body tk reg messages model max_tokens_arg of
        Inl (TokenLimitExceeded requested allowed) \<Rightarrow> Inl (TokenLimitExceeded requested allowed)
      | Inl e \<Rightarrow> Inl (TextGenerationError model)
      | Inr u \<Rightarrow> Inr ())"

section \<open>Messages as the specification describes them\<close>

text \<open>
  A message is well formed when it is a dictionary whose \<open>role\<close> and \<open>content\<close> are
  strings; its rendered form is the framed text. \<open>count_messages_spec\<close> follows the
  specification's words: the sum of \<open>count_tokens\<close> over the rendered messages, plus the
  count of the assistant prelude when the last role is not \<open>assistant\<close>; it has no value
  when one of these counts fails. The example tokenizer yields one token per character.
\<close>

definition well_formed :: "pyval \<Rightarrow> bool" where
  "well_formed m =
     (case m of
        PyDict kvs \<Rightarrow>
          (case (map_of kvs ''role'', map_of kvs ''content'') of
             (Some (PyStr r), Some (PyStr c)) \<Rightarrow> True
           | _ \<Rightarrow> False)
      | _ \<Rightarrow> False)"

definition role_of :: "pyval \<Rightarrow> string" where
  "role_of m = (case dict_get m ''role'' of Some (PyStr r) \<Rightarrow> r | _ \<Rightarrow> [])"

definition content_of :: "pyval \<Rightarrow> string" where
  "content_of m = (case dict_get m ''content'' of Some (PyStr c) \<Rightarrow> c | _ \<Rightarrow> [])"

definition render_message :: "pyval \<Rightarrow> string" where
  "render_message m = formatted_message (role_of m) (content_of m)"

definition to_option :: "error + 'a \<Rightarrow> 'a option" where
  "to_option r = (case r of Inl e \<Rightarrow> None | Inr v \<Rightarrow> Some v)"

definition count_messages_spec ::
  "tiktoken \<Rightarrow> registry \<Rightarrow> pyval list \<Rightarrow> string \<Rightarrow> int option" where
  "count_messages_spec tk reg messages model =
     (case those (map (\<lambda>m. to_option (count_tokens tk reg (render_message m) model)) messages) of
        None \<Rightarrow> None
      | Some counts \<Rightarrow>
          if role_of (last messages) \<noteq> ''assistant''
          then (case to_option (count_tokens tk reg assistant_prelude model) of
                  None \<Rightarrow> None
                | Some p \<Rightarrow> Some (sum_list counts + p))
          else Some (sum_list counts))"

definition char_tokens :: encoder where
  "char_tokens s = Some (map of_char s)"

definition example_tiktoken :: tiktoken where
  "example_tiktoken name = (if name = ''cl100k_base'' then Some char_tokens else None)"

definition example_registry :: registry where
  "example_registry =
     [''llama3-8b-8192'' \<mapsto>
        \<lparr>model_type = Chat, max_tokens = Some 8192, max_completion_tokens = Some 8192\<rparr>,
      ''tiny-chat'' \<mapsto>
        \<lparr>model_type = Chat, max_tokens = Some 100, max_completion_tokens = Some 50\<rparr>,
      ''whisper-large-v3'' \<mapsto>
        \<lparr>model_type = Stt, max_tokens = None, max_completion_tokens = None\<rparr>]"

definition msg :: "string \<Rightarrow> string \<Rightarrow> pyval" where
  "msg role content = PyDict [(''role'', PyStr role), (''content'', PyStr content)]"

definition is_message_format_error :: "error + 'a \<Rightarrow> bool" where
  "is_message_format_error r = (case r of Inl (MessageFormatError i) \<Rightarrow> True | _ \<Rightarrow> False)"

definition ninety_token_messages :: "pyval list" where
  "ninety_token_messages = [msg ''user'' ''Summarise the plot of Hamlet in one line.'']"

definition malformed_messages :: "pyval list" where
  "malformed_messages = [PyInt 3, PyDict [(''role'', PyStr ''user'')]]"

section \<open>Priority queue manager (core/queue\_manager.py)\<close>

text \<open>
  A queued request. The submitted callable with its bound arguments is outside the model
  and is named by a handle; what invoking it does is the parameter \<open>run\<close> of the
  processing functions, which maps the request as it stands at the invocation (with its
  retry count) to \<open>None\<close> when the callable returns and to the exception when it raises.
\<close>

datatype priority = LOW | NORMAL | HIGH | URGENT

record queued_request =
  req_id :: string
  request_func :: nat
  priority :: priority
  timestamp :: real
  retry_count :: int
  max_retries :: int
  tokens_required :: int
  original_priority :: "priority option"

record queue_stats =
  total_queued :: int
  total_processed :: int
  total_failed :: int
  total_retries :: int

text \<open>
  The manager's attributes, and two components that are not attributes of the class:
  \<open>clock\<close> is the process clock that \<open>time.time()\<close> reads and that every sleep advances
  by its duration, and \<open>invoked\<close> records the ids of the requests whose callable has been
  invoked, in order. The two locks only serialise the critical sections and are left
  out; each function below runs without interleaving.
\<close>

record queue_manager =
  rate_limit_handler :: rate_limit_state
  max_queue_size :: int
  queues :: "priority \<Rightarrow> queued_request list"
  processing :: bool
  request_counter :: int
  stats :: queue_stats
  clock :: real
  invoked :: "string list"

type_synonym callables = "queued_request \<Rightarrow> error option"

definition queue_manager_init ::
  "rate_limit_state option \<Rightarrow> int \<Rightarrow> real \<Rightarrow> error + queue_manager" where
  "queue_manager_init handler max_queue_size_arg now =
     (if max_queue_size_arg \<le> 0 then Inl (ValidationError ''max_queue_size'')
      else Inr \<lparr>rate_limit_handler = (case handler of Some h \<Rightarrow> h | None \<Rightarrow> init_handler),
                max_queue_size = max_queue_size_arg,
                queues = (\<lambda>p. []),
                processing = False,
                request_counter = 0,
                stats = \<lparr>total_queued = 0, total_processed = 0, total_failed = 0,
                          total_retries = 0\<rparr>,
                clock = now,
                invoked = []\<rparr>)"

text \<open>Decimal rendering of integers and \<open>int(x)\<close> of a clock reading, for request ids.\<close>

fun str_nat :: "nat \<Rightarrow> string" where
  "str_nat n =
     (if n < 10 then [char_of (48 + n)] else str_nat (n div 10) @ [char_of (48 + n mod 10)])"

definition str_int :: "int \<Rightarrow> string" where
  "str_int k = (if k < 0 then CHR ''-'' # str_nat (nat (- k)) else str_nat (nat k))"

definition py_trunc :: "real \<Rightarrow> int" where
  "py_trunc x = (if x < 0 then \<lceil>x\<rceil> else \<lfloor>x\<rfloor>)"

definition generate_request_id :: "queue_manager \<Rightarrow> string \<times> queue_manager" where
  "generate_request_id s =
     (let s' = s\<lparr>request_counter := request_counter s + 1\<rparr>
      in (''req_'' @ str_int (py_trunc (clock s')) @ ''_'' @ str_int (request_counter s'), s'))"

text \<open>\<open>Priority(priority.lower())\<close>, with \<open>NORMAL\<close> for a value that is no priority.\<close>

definition parse_priority :: "string \<Rightarrow> priority option" where
  "parse_priority p =
     (let v = lower p
      in if v = ''low'' then Some LOW
         else if v = ''normal'' then Some NORMAL
         else if v = ''high'' then Some HIGH
         else if v = ''urgent'' then Some URGENT
         else None)"

definition queue_total :: "queue_manager \<Rightarrow> int" where
  "queue_total s = (\<Sum>p\<leftarrow>[LOW, NORMAL, HIGH, URGENT]. int (length (queues s p)))"

text \<open>
  \<open>enqueue\<close>. \<open>queue_full_check\<close> is the body of the first \<open>async with self._async_lock\<close>
  block, which raises \<open>QueueFullError\<close>; the block is enclosed by
  \<open>except Exception as e: raise LockError(...)\<close>. The handle is a callable by its type,
  so the first argument check cannot fail. \<open>_start_processing\<close> sets the flag; the worker
  it starts is the processing functions below.
\<close>

definition queue_full_check :: "queue_manager \<Rightarrow> error + unit" where
  "queue_full_check s =
     (let total = queue_total s
      in if total \<ge> max_queue_size s then Inl (QueueFullError total (max_queue_size s))
         else Inr ())"

definition start_processing :: "queue_manager \<Rightarrow> queue_manager" where
  "start_processing s = (if processing s then s else s\<lparr>processing := True\<rparr>)"

definition enqueue ::
  "nat \<Rightarrow> string \<Rightarrow> int \<Rightarrow> int \<Rightarrow> queue_manager \<Rightarrow> (error + string) \<times> queue_manager" where
  "enqueue func priority_arg tokens_required_arg max_retries_arg s =
     (if tokens_required_arg < 0 then (Inl (ValidationError ''tokens_required''), s)
      else if max_retries_arg < 0 then (Inl (ValidationError ''max_retries''), s)
      else
        let priority_enum = (case parse_priority priority_arg of Some p \<Rightarrow> p | None \<Rightarrow> NORMAL)
        in case queue_full_check s of
             Inl e \<Rightarrow> (Inl LockError, s)
           | Inr u \<Rightarrow>
               let (request_id, s1) = generate_request_id s;
                   queued = \<lparr>req_id = request_id, request_func = func,
                             priority = priority_enum, timestamp = clock s1,
                             retry_count = 0, max_retries = max_retries_arg,
                             tokens_required = tokens_required_arg,
                             original_priority = Some priority_enum\<rparr>;
                   s2 = s1\<lparr>queues := (queues s1)(priority_enum := queues s1 priority_enum @ [queued]),
                           stats := (stats s1)\<lparr>total_queued := total_queued (stats s1) + 1\<rparr>\<rparr>
               in (Inr request_id, start_processing s2))"

text \<open>
  \<open>_handle_request_error\<close> and its synchronous twin \<open>_handle_request_error_sync\<close>: the
  two bodies are the same statements under different locks.
\<close>

definition handle_request_error ::
  "queued_request \<Rightarrow> error \<Rightarrow> queue_manager \<Rightarrow> (error + unit) \<times> queue_manager" where
  "handle_request_error request err s =
     (let s1 = s\<lparr>stats := (stats s)\<lparr>total_failed := total_failed (stats s) + 1\<rparr>\<rparr>
      in if retry_count request < max_retries request
         then
           let r1 = request\<lparr>retry_count := retry_count request + 1\<rparr>;
               s2 = s1\<lparr>stats := (stats s1)\<lparr>total_retries := total_retries (stats s1) + 1\<rparr>\<rparr>;
               r2 = r1\<lparr>priority := (case original_priority r1 of
                                       Some p \<Rightarrow> p | None \<Rightarrow> priority r1)\<rparr>
           in (Inr (), s2\<lparr>queues := (queues s2)(priority r2 := queues s2 (priority r2) @ [r2])\<rparr>)
         else (Inl (RetryError (max_retries request) err), s1))"

definition handle_request_error_sync ::
  "queued_request \<Rightarrow> error \<Rightarrow> queue_manager \<Rightarrow> (error + unit) \<times> queue_manager" where
  "handle_request_error_sync request err s =
     (let s1 = s\<lparr>stats := (stats s)\<lparr>total_failed := total_failed (stats s) + 1\<rparr>\<rparr>
      in if retry_count request < max_retries request
         then
           let r1 = request\<lparr>retry_count := retry_count request + 1\<rparr>;
               s2 = s1\<lparr>stats := (stats s1)\<lparr>total_retries := total_retries (stats s1) + 1\<rparr>\<rparr>;
               r2 = r1\<lparr>priority := (case original_priority r1 of
                                       Some p \<Rightarrow> p | None \<Rightarrow> priority r1)\<rparr>
           in (Inr (), s2\<lparr>queues := (queues s2)(priority r2 := queues s2 (priority r2) @ [r2])\<rparr>)
         else (Inl (RetryError (max_retries request) err), s1))"

text \<open>
  The tracker's \<open>wait_if_needed\<close> under the manager's clock: the sleep ends the computed
  wait after it began.
\<close>

definition clock_after_wait :: "real \<Rightarrow> rate_limit_state \<Rightarrow> real" where
  "clock_after_wait now st =
     (case wait_time_locked now st of
        Inl e \<Rightarrow> now
      | Inr wait_time \<Rightarrow> if wait_time > 0 then now + wait_time else now)"

definition wait_for_quota :: "queue_manager \<Rightarrow> (error + unit) \<times> queue_manager" where
  "wait_for_quota s =
     (let wake = clock_after_wait (clock s) (rate_limit_handler s);
          (r, slept, h) = wait_if_needed (clock s) wake (rate_limit_handler s)
      in (r, s\<lparr>rate_limit_handler := h, clock := wake\<rparr>))"

text \<open>
  \<open>_execute_request\<close> (asynchronous path): wait, invoke, count. An
  \<open>asyncio.TimeoutError\<close> becomes \<open>RequestTimeoutError(30)\<close>; every other exception is
  raised again as it is.
\<close>

definition execute_request ::
  "callables \<Rightarrow> queued_request \<Rightarrow> queue_manager \<Rightarrow> (error + unit) \<times> queue_manager" where
  "execute_request run request s =
     (case wait_for_quota s of
        (Inl e, s1) \<Rightarrow> (Inl e, s1)
      | (Inr u, s1) \<Rightarrow>
          let s2 = s1\<lparr>invoked := invoked s1 @ [req_id request]\<rparr>
          in case run request of
               Some AsyncioTimeoutError \<Rightarrow> (Inl (RequestTimeoutError 30), s2)
             | Some e \<Rightarrow> (Inl e, s2)
             | None \<Rightarrow>
                 (Inr (), s2\<lparr>stats := (stats s2)\<lparr>total_processed :=
                                                     total_processed (stats s2) + 1\<rparr>\<rparr>))"

text \<open>
  \<open>_process_priority_queue(priority)\<close>: pop the head, ask the tracker with
  \<open>can_proceed(request.tokens_required)\<close>, push the head back when refused, otherwise
  execute; every exception of the second \<open>try\<close> block goes to \<open>_handle_request_error\<close>.
\<close>

definition process_priority_queue ::
  "callables \<Rightarrow> priority \<Rightarrow> queue_manager \<Rightarrow> (error + unit) \<times> queue_manager" where
  "process_priority_queue run p s =
     (case queues s p of
        [] \<Rightarrow> (Inr (), s)
      | request # rest \<Rightarrow>
          let s1 = s\<lparr>queues := (queues s)(p := rest)\<rparr>
          in case can_proceed (clock s1) (tokens_required request) 1 0 (rate_limit_handler s1) of
               (Inl e, h) \<Rightarrow> handle_request_error request e (s1\<lparr>rate_limit_handler := h\<rparr>)
             | (Inr False, h) \<Rightarrow>
                 let s2 = s1\<lparr>rate_limit_handler := h\<rparr>
                 in (Inr (), s2\<lparr>queues := (queues s2)(p := request # queues s2 p)\<rparr>)
             | (Inr True, h) \<Rightarrow>
                 (case execute_request run request (s1\<lparr>rate_limit_handler := h\<rparr>) of
                    (Inl e, s3) \<Rightarrow> handle_request_error request e s3
                  | (Inr u, s3) \<Rightarrow> (Inr (), s3)))"

text \<open>
  One iteration of the \<open>while self._processing\<close> loop of \<open>_process_queue_async\<close>: the
  \<open>for\<close> loop over the four priorities, then a sleep of 0.1 seconds, or of one second
  when an exception ended the \<open>for\<close> loop. The loop itself ends only when another task
  clears the flag, so it is given as a number of iterations.
\<close>

fun process_priorities ::
  "callables \<Rightarrow> priority list \<Rightarrow> queue_manager \<Rightarrow> (error + unit) \<times> queue_manager" where
  "process_priorities run [] s = (Inr (), s)"
| "process_priorities run (p # ps) s =
     (case process_priority_queue run p s of
        (Inl e, s') \<Rightarrow> (Inl e, s')
      | (Inr u, s') \<Rightarrow> process_priorities run ps s')"

definition process_queue_iteration :: "callables \<Rightarrow> queue_manager \<Rightarrow> queue_manager" where
  "process_queue_iteration run s =
     (case process_priorities run [URGENT, HIGH, NORMAL, LOW] s of
        (Inl e, s') \<Rightarrow> s'\<lparr>clock := clock s' + 1\<rparr>
      | (Inr u, s') \<Rightarrow> s'\<lparr>clock := clock s' + 1 / 10\<rparr>)"

fun process_queue_async :: "nat \<Rightarrow> callables \<Rightarrow> queue_manager \<Rightarrow> queue_manager" where
  "process_queue_async 0 run s = s"
| "process_queue_async (Suc n) run s =
     (if processing s then process_queue_async n run (process_queue_iteration run s) else s)"

text \<open>
  \<open>_process_sync\<close>: the first non-empty queue in priority order gives the request; the
  rest is as in the asynchronous path, with the push-back into the queue of
  \<open>request.priority\<close>. An exception of \<open>_handle_request_error_sync\<close> leaves the method.
\<close>

fun first_nonempty ::
  "(priority \<Rightarrow> queued_request list) \<Rightarrow> priority list \<Rightarrow> priority option" where
  "first_nonempty qs [] = None"
| "first_nonempty qs (p # ps) = (if qs p \<noteq> [] then Some p else first_nonempty qs ps)"

definition process_sync ::
  "callables \<Rightarrow> queue_manager \<Rightarrow> (error + unit) \<times> queue_manager" where
  "process_sync run s =
     (case first_nonempty (queues s) [URGENT, HIGH, NORMAL, LOW] of
        None \<Rightarrow> (Inr (), s)
      | Some p \<Rightarrow>
          (case queues s p of
             [] \<Rightarrow> (Inr (), s)
           | request # rest \<Rightarrow>
               let s1 = s\<lparr>queues := (queues s)(p := rest)\<rparr>
               in case can_proceed (clock s1) (tokens_required request) 1 0
                         (rate_limit_handler s1) of
                    (Inl e, h) \<Rightarrow>
                      handle_request_error_sync request e (s1\<lparr>rate_limit_handler := h\<rparr>)
                  | (Inr False, h) \<Rightarrow>
                      let s2 = s1\<lparr>rate_limit_handler := h\<rparr>
                      in (Inr (), s2\<lparr>queues := (queues s2)
                                    (priority request := request # queues s2 (priority request))\<rparr>)
                  | (Inr True, h) \<Rightarrow>
                      (case wait_for_quota (s1\<lparr>rate_limit_handler := h\<rparr>) of
                         (Inl e, s3) \<Rightarrow> handle_request_error_sync request e s3
                       | (Inr u, s3) \<Rightarrow>
                           let s4 = s3\<lparr>invoked := invoked s3 @ [req_id request]\<rparr>
                           in case run request of
                                Some e \<Rightarrow> handle_request_error_sync request e s4
                              | None \<Rightarrow>
                                  (Inr (), s4\<lparr>stats := (stats s4)\<lparr>total_processed :=
                                     total_processed (stats s4) + 1\<rparr>\<rparr>))))"

text \<open>
  \<open>process_queue\<close>: \<open>_process_sync\<close> and a sleep of 0.1 seconds while a request is
  pending; an exception becomes \<open>ThreadingError\<close>. The loop need not end (a refused head
  is retried for ever), so it runs on fuel: \<open>None\<close> is the loop still running when the
  fuel is used up.
\<close>

definition has_pending_requests :: "queue_manager \<Rightarrow> bool" where
  "has_pending_requests s = list_ex (\<lambda>p. queues s p \<noteq> []) [LOW, NORMAL, HIGH, URGENT]"

fun process_queue ::
  "nat \<Rightarrow> callables \<Rightarrow> queue_manager \<Rightarrow> (error + unit) option \<times> queue_manager" where
  "process_queue 0 run s = (if has_pending_requests s then (None, s) else (Some (Inr ()), s))"
| "process_queue (Suc n) run s =
     (if has_pending_requests s
      then (case process_sync run s of
              (Inl e, s') \<Rightarrow> (Some (Inl ThreadingError), s')
            | (Inr u, s') \<Rightarrow> process_queue n run (s'\<lparr>clock := clock s' + 1 / 10\<rparr>))
      else (Some (Inr ()), s))"

text \<open>\<open>clear_queue\<close> and \<open>stop_processing\<close>.\<close>

definition clear_queue :: "string option \<Rightarrow> queue_manager \<Rightarrow> (error + unit) \<times> queue_manager" where
  "clear_queue priority_arg s =
     (case priority_arg of
        None \<Rightarrow> (Inr (), s\<lparr>queues := (\<lambda>p. [])\<rparr>)
      | Some p \<Rightarrow>
          (case parse_priority p of
             None \<Rightarrow> (Inl LockError, s)
           | Some priority_enum \<Rightarrow> (Inr (), s\<lparr>queues := (queues s)(priority_enum := [])\<rparr>)))"

definition stop_processing :: "queue_manager \<Rightarrow> queue_manager" where
  "stop_processing s = s\<lparr>processing := False\<rparr>"

section \<open>Retry budget and reachable states of the queue manager\<close>

text \<open>
  \<open>retry_inv\<close> says that every queued request has \<open>0 \<le> retry_count \<le> max_retries\<close>;
  \<open>retry_target\<close> is the priority a failed request goes back to. The reachable states
  start from \<open>__init__\<close> and are closed under enqueueing, the processing steps of both
  paths with any callables, clearing, stopping, any change of the shared tracker, and
  the passing of time.
\<close>

definition request_ok :: "queued_request \<Rightarrow> bool" where
  "request_ok r = (0 \<le> retry_count r \<and> retry_count r \<le> max_retries r)"

definition retry_inv :: "queue_manager \<Rightarrow> bool" where
  "retry_inv s = list_all (\<lambda>p. list_all request_ok (queues s p)) [LOW, NORMAL, HIGH, URGENT]"

definition retry_target :: "queued_request \<Rightarrow> priority" where
  "retry_target r = (case original_priority r of Some p \<Rightarrow> p | None \<Rightarrow> priority r)"

text \<open>
  A dispatch that reaches the call: \<open>admitted\<close> says that the request is the head of
  queue \<open>p\<close>, that the tracker lets it proceed and that the wait before the call
  returns, leaving the manager in state \<open>w\<close>; \<open>wait_failed\<close> says that the wait raises
  instead; \<open>selected\<close> says that the synchronous path picks queue \<open>p\<close>.
\<close>

definition admitted ::
  "queue_manager \<Rightarrow> priority \<Rightarrow> queued_request \<Rightarrow> queued_request list \<Rightarrow>
   rate_limit_state \<Rightarrow> queue_manager \<Rightarrow> bool" where
  "admitted d p request rest h w =
     (queues d p = request # rest \<and>
      can_proceed (clock d) (tokens_required request) 1 0 (rate_limit_handler d) = (Inr True, h) \<and>
      wait_for_quota (d\<lparr>queues := (queues d)(p := rest), rate_limit_handler := h\<rparr>) = (Inr (), w))"

definition wait_failed ::
  "queue_manager \<Rightarrow> priority \<Rightarrow> queued_request \<Rightarrow> queued_request list \<Rightarrow>
   rate_limit_state \<Rightarrow> queue_manager \<Rightarrow> error \<Rightarrow> bool" where
  "wait_failed d p request rest h w cause =
     (queues d p = request # rest \<and>
      can_proceed (clock d) (tokens_required request) 1 0 (rate_limit_handler d) = (Inr True, h) \<and>
      wait_for_quota (d\<lparr>queues := (queues d)(p := rest), rate_limit_handler := h\<rparr>) =
        (Inl cause, w))"

definition selected :: "queue_manager \<Rightarrow> priority \<Rightarrow> bool" where
  "selected d p = (first_nonempty (queues d) [URGENT, HIGH, NORMAL, LOW] = Some p)"

inductive qm_reachable :: "queue_manager \<Rightarrow> bool" where
  r_init: "queue_manager_init handler cap now = Inr s \<Longrightarrow> qm_reachable s"
| r_enqueue: "qm_reachable s \<Longrightarrow>
     qm_reachable (snd (enqueue func priority_arg tokens_arg retries_arg s))"
| r_async: "qm_reachable s \<Longrightarrow> qm_reachable (snd (process_priority_queue run p s))"
| r_sync: "qm_reachable s \<Longrightarrow> qm_reachable (snd (process_sync run s))"
| r_clear: "qm_reachable s \<Longrightarrow> qm_reachable (snd (clear_queue priority_opt s))"
| r_stop: "qm_reachable s \<Longrightarrow> qm_reachable (stop_processing s)"
| r_tracker: "qm_reachable s \<Longrightarrow> qm_reachable (s\<lparr>rate_limit_handler := h\<rparr>)"
| r_clock: "qm_reachable s \<Longrightarrow> clock s \<le> t \<Longrightarrow> qm_reachable (s\<lparr>clock := t\<rparr>)"

text \<open>
  Example states: callables that always return; a manager created at clock reading 1000;
  two urgent requests and a normal one enqueued into it; a manager of capacity 2 with two
  requests enqueued.
\<close>

definition always_returns :: callables where
  "always_returns r = None"

definition fresh_manager :: "int \<Rightarrow> queue_manager" where
  "fresh_manager cap =
     \<lparr>rate_limit_handler = init_handler, max_queue_size = cap, queues = (\<lambda>p. []),
      processing = False, request_counter = 0,
      stats = \<lparr>total_queued = 0, total_processed = 0, total_failed = 0, total_retries = 0\<rparr>,
      clock = 1000, invoked = []\<rparr>"

definition precedence_example :: queue_manager where
  "precedence_example =
     snd (enqueue 13 ''normal'' 0 3
       (snd (enqueue 12 ''urgent'' 0 3
         (snd (enqueue 11 ''URGENT'' 0 3 (fresh_manager 1000))))))"

definition full_example :: queue_manager where
  "full_example =
     snd (enqueue 12 ''high'' 0 3 (snd (enqueue 11 ''low'' 0 3 (fresh_manager 2))))"

definition example_request :: "string \<Rightarrow> nat \<Rightarrow> priority \<Rightarrow> queued_request" where
  "example_request rid func p =
     \<lparr>req_id = rid, request_func = func, priority = p, timestamp = 1000, retry_count = 0,
      max_retries = 3, tokens_required = 0, original_priority = Some p\<rparr>"

definition after_first_urgent :: queue_manager where
  "after_first_urgent = snd (process_priority_queue always_returns URGENT precedence_example)"

text \<open>A request with three retries left, and one without retry budget; the callable raises.\<close>

definition failing_example :: queue_manager where
  "failing_example = snd (enqueue 11 ''normal'' 0 3 (fresh_manager 1000))"

definition always_raises :: callables where
  "always_raises r = Some (ExternalError ''boom'')"

definition no_retry_example :: queue_manager where
  "no_retry_example = snd (enqueue 11 ''normal'' 0 0 (fresh_manager 1000))"

section \<open>Theorems: rate-limit tracker\<close>

lemma lazy_reset_windows:
  "requests_window (lazy_reset now st) = reset_window now (requests_window st) \<and>
   tokens_window (lazy_reset now st) = reset_window now (tokens_window st) \<and>
   audio_window (lazy_reset now st) = reset_window now (audio_window st) \<and>
   last_update (lazy_reset now st) = last_update st"
  by (auto simp add: lazy_reset_def Let_def requests_window_def tokens_window_def
      audio_window_def reset_window_def)

text \<open>
  Claim C1. For non-negative requested amounts, \<open>can_proceed\<close> leaves the tracker in the
  lazily reset state: each window whose reset deadline is positive and not after the
  clock reading has its remaining amount restored to its limit and its deadline cleared,
  and the other windows are untouched. It then returns true exactly when every window
  with a positive limit has at least the requested amount remaining. A tracker whose
  limits are all zero admits every request.
\<close>

theorem can_proceed_lazy_reset_then_admits:
  assumes "0 \<le> tokens" and "0 \<le> requests" and "0 \<le> audio_seconds"
  shows "snd (can_proceed now tokens requests audio_seconds st) = lazy_reset now st \<and>
         requests_window (lazy_reset now st) = reset_window now (requests_window st) \<and>
         tokens_window (lazy_reset now st) = reset_window now (tokens_window st) \<and>
         audio_window (lazy_reset now st) = reset_window now (audio_window st) \<and>
         fst (can_proceed now tokens requests audio_seconds st) =
           Inr (admits (reset_window now (requests_window st)) requests \<and>
                admits (reset_window now (tokens_window st)) tokens \<and>
                admits (reset_window now (audio_window st)) audio_seconds) \<and>
         (request_limit st = 0 \<and> token_limit st = 0 \<and> audio_seconds_limit st = 0 \<longrightarrow>
            fst (can_proceed now tokens requests audio_seconds st) = Inr True)"
proof -
  let ?s = "lazy_reset now st"
  have w: "requests_window ?s = reset_window now (requests_window st)"
    "tokens_window ?s = reset_window now (tokens_window st)"
    "audio_window ?s = reset_window now (audio_window st)"
    using lazy_reset_windows by blast+
  have post: "snd (can_proceed now tokens requests audio_seconds st) = ?s"
    using assms by (simp add: can_proceed_def Let_def)
  have res: "fst (can_proceed now tokens requests audio_seconds st) =
      Inr (admits (requests_window ?s) requests \<and> admits (tokens_window ?s) tokens \<and>
           admits (audio_window ?s) audio_seconds)"
    using assms
    by (auto simp add: can_proceed_def Let_def admits_def requests_window_def
        tokens_window_def audio_window_def)
  have lims: "request_limit ?s = request_limit st" "token_limit ?s = token_limit st"
    "audio_seconds_limit ?s = audio_seconds_limit st"
    by (simp_all add: lazy_reset_def Let_def)
  have zero: "request_limit st = 0 \<and> token_limit st = 0 \<and> audio_seconds_limit st = 0 \<longrightarrow>
      fst (can_proceed now tokens requests audio_seconds st) = Inr True"
    using res lims
    by (simp add: admits_def requests_window_def tokens_window_def audio_window_def)
  show ?thesis using w post res zero by simp
qed

text \<open>
  The lazy-reset scenario: limit 10, nothing remaining, reset due at 1001. At 1000 one
  request is refused; at 1001.1 ten requests are admitted and the window is full again.
\<close>

theorem can_proceed_lazy_reset_then_admits_witness:
  "fst (can_proceed 1000 0 1 0 lazy_reset_example) = Inr False \<and>
   fst (can_proceed (10011 / 10) 0 10 0 lazy_reset_example) = Inr True \<and>
   request_remaining (snd (can_proceed (10011 / 10) 0 10 0 lazy_reset_example)) = 10 \<and>
   request_reset_time (snd (can_proceed (10011 / 10) 0 10 0 lazy_reset_example)) = 0"
proof -
  have a: "(0::int) \<le> 0" and b: "(0::int) \<le> 1" and c: "(0::int) \<le> 10" by simp_all
  have e: "requests_window lazy_reset_example =
      \<lparr>w_limit = 10, w_remaining = 0, w_reset_at = 1001\<rparr>"
    "tokens_window lazy_reset_example = \<lparr>w_limit = 0, w_remaining = 0, w_reset_at = 0\<rparr>"
    "audio_window lazy_reset_example = \<lparr>w_limit = 0, w_remaining = 0, w_reset_at = 0\<rparr>"
    by (simp_all add: lazy_reset_example_def init_handler_def requests_window_def
        tokens_window_def audio_window_def)
  have l: "lazy_reset (10011 / 10) lazy_reset_example =
      lazy_reset_example\<lparr>request_remaining := 10, request_reset_time := 0\<rparr>"
    by (simp add: lazy_reset_def Let_def lazy_reset_example_def init_handler_def)
  from can_proceed_lazy_reset_then_admits [OF a b a, of 1000 lazy_reset_example]
       can_proceed_lazy_reset_then_admits [OF a c a, of "10011 / 10" lazy_reset_example]
  show ?thesis
    by (simp add: e l reset_window_def admits_def)
qed

text \<open>
  Claim C2. With the requests window due to reset 301 seconds from now, the critical
  section computes a wait of 301 seconds and raises \<open>RateLimitExceeded\<close> with code
  \<open>RATE_LIMIT_WAIT_TOO_LONG\<close>, as the docstring of \<open>wait_if_needed\<close> announces; the
  enclosing \<open>except Exception\<close> turns it into a \<open>LockError\<close>, which is what the caller
  receives. The call does not sleep and leaves the state as it was.
\<close>

theorem wait_if_needed_too_long_is_lock_error:
  "wait_time_locked 1000 long_wait_example =
     Inl (RateLimitExceeded ''RATE_LIMIT_WAIT_TOO_LONG'' 301) \<and>
   wait_if_needed 1000 1000 long_wait_example = (Inl LockError, None, long_wait_example)"
  by (simp add: wait_if_needed_def wait_time_locked_def Let_def long_wait_example_def
      init_handler_def)

text \<open>No call of \<open>wait_if_needed\<close> hands a \<open>RateLimitExceeded\<close> to its caller.\<close>

lemma wait_if_needed_never_rate_limit_exceeded:
  "fst (wait_if_needed now wake st) \<noteq> Inl (RateLimitExceeded code w)"
  by (simp add: wait_if_needed_def split: sum.splits)

text \<open>
  The parser follows \<open>int\<close>, not \<open>str.strip\<close>: a file separator before the digit is
  refused, a no-break space is skipped.
\<close>

lemma py_int_separator_refused:
  "py_int [CHR 0x1C, CHR ''3''] = None \<and> py_int [CHR 0xA0, CHR ''3'', CHR 0x0A] = Some 3"
  by (simp add: py_int_def strip_def is_space_def py_nat_def int_max_str_digits_def
      is_digit_def digit_val_def)

lemma py_int_5: "py_int ''5'' = Some 5"
  by (simp add: py_int_def strip_def is_space_def py_nat_def int_max_str_digits_def is_digit_def digit_val_def)

lemma inconsistent_example_value:
  "inconsistent_example = init_handler\<lparr>request_remaining := 5\<rparr>"
  by (simp add: inconsistent_example_def update_from_headers_def header_blocks_def
      int_header_def reset_header_def py_int_5 init_handler_def)

text \<open>
  Claim C3, as stated, fails: ingestion stores what the headers report. A fresh tracker
  that ingests only \<open>x-ratelimit-remaining-requests: 5\<close> has 5 requests remaining under
  a limit of 0.
\<close>

theorem quota_invariant_counterexample:
  "reachable inconsistent_example \<and> request_remaining inconsistent_example = 5 \<and>
   request_limit inconsistent_example = 0 \<and> \<not> quota_inv inconsistent_example"
proof -
  have "reachable inconsistent_example"
    unfolding inconsistent_example_def by (rule reachable.ingest [OF reachable.start])
  then show ?thesis
    by (simp add: inconsistent_example_value quota_inv_def init_handler_def)
qed

lemma quota_inv_lazy_reset: "quota_inv st \<Longrightarrow> quota_inv (lazy_reset now st)"
  by (auto simp add: quota_inv_def lazy_reset_def Let_def)

lemma quota_inv_can_proceed:
  "quota_inv st \<Longrightarrow> quota_inv (snd (can_proceed now tokens requests audio_seconds st))"
  by (simp add: can_proceed_def Let_def quota_inv_lazy_reset)

lemma quota_inv_wait_if_needed:
  "quota_inv st \<Longrightarrow> quota_inv (snd (snd (wait_if_needed now wake st)))"
  by (simp add: wait_if_needed_def quota_inv_lazy_reset split: sum.splits)

lemma quota_inv_get_status: "quota_inv st \<Longrightarrow> quota_inv (snd (get_status now st))"
  by (simp add: get_status_def Let_def quota_inv_lazy_reset)

lemma window_headers_okE:
  assumes "window_headers_ok hs lk rk"
  obtains "map_of hs lk = None" and "map_of hs rk = None"
  | l r a b where "map_of hs lk = Some l" and "map_of hs rk = Some r"
      and "py_int l = Some a" and "py_int r = Some b" and "0 \<le> b" and "b \<le> a"
  using assms unfolding window_headers_ok_def
  by (cases "map_of hs lk"; cases "map_of hs rk"; simp split: option.splits)

lemma quota_inv_update_from_headers:
  assumes "quota_inv st" and "consistent_headers hs"
  shows "quota_inv (snd (update_from_headers now hs st))"
proof -
  have r: "window_headers_ok hs ''x-ratelimit-limit-requests'' ''x-ratelimit-remaining-requests''"
    and t: "window_headers_ok hs ''x-ratelimit-limit-tokens'' ''x-ratelimit-remaining-tokens''"
    and a: "window_headers_ok hs ''x-ratelimit-limit-audio-seconds''
        ''x-ratelimit-remaining-audio-seconds''"
    using assms(2) by (simp_all add: consistent_headers_def)
  show ?thesis
    using assms(1) r t a
    apply (elim window_headers_okE)
           apply (simp_all add: update_from_headers_def header_blocks_def int_header_def
        reset_header_def quota_inv_def split: option.splits)
    done
qed

text \<open>
  Claim C3, amended. If every ingested header bag reports, for each window, either neither
  the limit nor the remaining amount, or both as strings that \<open>int\<close> parses, with
  \<open>0 \<le> remaining \<le> limit\<close>, then every state reached from a fresh tracker by
  ingestions and queries has \<open>0 \<le> remaining \<le> limit\<close> in each window.
\<close>

theorem quota_invariant_consistent_ingestion:
  "reachable_consistent st \<Longrightarrow> quota_inv st"
proof (induction rule: reachable_consistent.induct)
  case c_start
  show ?case by (simp add: quota_inv_def init_handler_def)
next
  case (c_ingest st hs now)
  then show ?case by (simp add: quota_inv_update_from_headers)
next
  case (c_ask st now tokens requests audio_seconds)
  then show ?case by (simp add: quota_inv_can_proceed)
next
  case (c_wait st now wake)
  then show ?case by (simp add: quota_inv_wait_if_needed)
next
  case (c_status st now)
  then show ?case by (simp add: quota_inv_get_status)
qed

text \<open>
  A consistent ingestion: limit 10 with 3 remaining for requests, then a query.
\<close>

theorem quota_invariant_consistent_ingestion_witness:
  "reachable_consistent consistent_example \<and> quota_inv consistent_example \<and>
   request_limit consistent_example = 10 \<and> request_remaining consistent_example = 3"
proof -
  have c: "consistent_headers consistent_example_headers"
    by (simp add: consistent_headers_def window_headers_ok_def consistent_example_headers_def
        py_int_def strip_def is_space_def py_nat_def int_max_str_digits_def is_digit_def digit_val_def)
  have r: "reachable_consistent consistent_example"
    unfolding consistent_example_def
    by (rule reachable_consistent.c_ask
        [OF reachable_consistent.c_ingest [OF reachable_consistent.c_start c]])
  have v: "request_limit consistent_example = 10 \<and> request_remaining consistent_example = 3"
    by (simp add: consistent_example_def consistent_example_headers_def can_proceed_def
        lazy_reset_def Let_def update_from_headers_def header_blocks_def int_header_def
        reset_header_def init_handler_def parse_time_string_def is_alpha_def lower_def
        lower_char_def py_int_def strip_def is_space_def py_nat_def int_max_str_digits_def is_digit_def
        digit_val_def)
  from quota_invariant_consistent_ingestion [OF r] r v show ?thesis by simp
qed

section \<open>Theorems: token counter and the check before dispatch\<close>

lemma formatted_message_nonempty: "formatted_message r c \<noteq> []"
  by (simp add: formatted_message_def)

lemma well_formedE:
  assumes "well_formed m"
  obtains kvs r c where "m = PyDict kvs" and "map_of kvs ''role'' = Some (PyStr r)"
    and "map_of kvs ''content'' = Some (PyStr c)"
  using assms unfolding well_formed_def
  by (auto split: pyval.splits option.splits)

lemma well_formed_render:
  assumes "m = PyDict kvs" and "map_of kvs ''role'' = Some (PyStr r)"
    and "map_of kvs ''content'' = Some (PyStr c)"
  shows "render_message m = formatted_message r c" and "role_of m = r"
  using assms by (simp_all add: render_message_def role_of_def content_of_def dict_get_def)

lemma message_loop_well_formed:
  "list_all well_formed ms \<Longrightarrow>
   to_option (message_loop enc model i ms tot) =
     map_option (\<lambda>ks. tot + sum_list ks)
       (those (map (\<lambda>m. map_option (\<lambda>ts. int (length ts)) (enc (render_message m))) ms))"
proof (induction ms arbitrary: i tot)
  case Nil
  show ?case by (simp add: to_option_def)
next
  case (Cons m ms)
  from Cons.prems have wf: "well_formed m" and rest: "list_all well_formed ms" by simp_all
  from wf obtain kvs r c where m: "m = PyDict kvs"
    and kr: "map_of kvs ''role'' = Some (PyStr r)"
    and kc: "map_of kvs ''content'' = Some (PyStr c)"
    by (rule well_formedE)
  have rm: "render_message m = formatted_message r c"
    using m kr kc by (rule well_formed_render)
  show ?case
  proof (cases "enc (formatted_message r c)")
    case None
    then show ?thesis by (simp add: m kr kc rm [unfolded m] to_option_def)
  next
    case (Some ts)
    have "to_option (message_loop enc model i (m # ms) tot) =
        to_option (message_loop enc model (Suc i) ms (tot + int (length ts)))"
      by (simp add: m kr kc Some)
    also have "\<dots> = map_option (\<lambda>ks. tot + int (length ts) + sum_list ks)
       (those (map (\<lambda>m. map_option (\<lambda>ts. int (length ts)) (enc (render_message m))) ms))"
      by (rule Cons.IH [OF rest])
    finally show ?thesis
      by (simp add: rm Some map_option_case split: option.splits)
  qed
qed

lemma count_tokens_chat:
  assumes "model \<noteq> []" and "reg model = Some info" and "model_type info = Chat"
    and "prompt \<noteq> []"
  shows "to_option (count_tokens tk reg prompt model) =
     (case tk ''cl100k_base'' of None \<Rightarrow> None
      | Some enc \<Rightarrow> map_option (\<lambda>ts. int (length ts)) (enc prompt))"
proof -
  have n: "(case map_of model_to_encoding model of Some n \<Rightarrow> n | None \<Rightarrow> ''cl100k_base'')
      = ''cl100k_base''"
    by (auto simp add: model_to_encoding_def split: option.splits if_splits)
  show ?thesis
    using assms
    by (simp add: count_tokens_def is_model_supported_def get_type_def get_model_info_def
        get_encoder_def n to_option_def split: option.splits)
qed

lemma those_map_None: "ms \<noteq> [] \<Longrightarrow> those (map (\<lambda>m. None) ms) = None"
  by (cases ms) simp_all

lemma encoding_name_fixed:
  "(case map_of model_to_encoding model of Some n \<Rightarrow> n | None \<Rightarrow> ''cl100k_base'')
     = ''cl100k_base''"
  by (auto simp add: model_to_encoding_def split: option.splits if_splits)

lemma count_message_tokens_chat:
  assumes "messages \<noteq> []" and "model \<noteq> []" and "reg model = Some info"
    and "model_type info = Chat"
  shows "count_message_tokens tk reg messages model =
     (case tk ''cl100k_base'' of
        None \<Rightarrow> Inl (EncodingError model ''unknown'')
      | Some enc \<Rightarrow>
          (case message_loop enc model 0 messages 0 of
             Inl e \<Rightarrow> Inl e
           | Inr total_tokens \<Rightarrow>
               if dict_get (last messages) ''role'' \<noteq> Some (PyStr ''assistant'')
               then (case enc assistant_prelude of
                       None \<Rightarrow> Inl (EncodingError model ''unknown'')
                     | Some assistant_token \<Rightarrow>
                         Inr (total_tokens + int (length assistant_token)))
               else Inr total_tokens))"
  using assms
  by (simp add: count_message_tokens_def is_model_supported_def get_type_def
      get_model_info_def get_encoder_def encoding_name_fixed split: option.splits)

lemma last_role_well_formed:
  assumes "well_formed m"
  shows "(dict_get m ''role'' \<noteq> Some (PyStr ''assistant'')) = (role_of m \<noteq> ''assistant'')"
proof -
  from assms obtain kvs r c where "m = PyDict kvs" and "map_of kvs ''role'' = Some (PyStr r)"
    and "map_of kvs ''content'' = Some (PyStr c)"
    by (rule well_formedE)
  then show ?thesis by (simp add: dict_get_def role_of_def)
qed

text \<open>
  Claim C8. For a non-empty list of well-formed messages and a supported chat model,
  \<open>count_message_tokens\<close> returns the sum of the token counts of the rendered messages,
  plus the token count of the assistant prelude exactly when the last role is not
  \<open>assistant\<close>; it raises exactly when one of these counts raises.
\<close>

theorem count_message_tokens_is_sum_of_rendered_counts:
  assumes "messages \<noteq> []" and "list_all well_formed messages"
    and "model \<noteq> []" and "reg model = Some info" and "model_type info = Chat"
  shows "to_option (count_message_tokens tk reg messages model) =
           count_messages_spec tk reg messages model"
proof (cases "tk ''cl100k_base''")
  case None
  have "\<And>m. to_option (count_tokens tk reg (render_message m) model) = None"
    using count_tokens_chat [where reg = reg and model = model and tk = tk, OF assms(3-5)] None
    by (simp add: render_message_def formatted_message_nonempty)
  then have "count_messages_spec tk reg messages model = None"
    by (simp add: count_messages_spec_def those_map_None [OF assms(1)])
  moreover have "to_option (count_message_tokens tk reg messages model) = None"
    by (simp add: count_message_tokens_chat [where reg = reg and model = model, OF assms(1,3-5)] None to_option_def)
  ultimately show ?thesis by simp
next
  case (Some enc)
  have ct: "\<And>p. p \<noteq> [] \<Longrightarrow> to_option (count_tokens tk reg p model) =
      map_option (\<lambda>ts. int (length ts)) (enc p)"
    using count_tokens_chat [where reg = reg and model = model and tk = tk, OF assms(3-5)] Some by simp
  have rendered: "\<And>m. to_option (count_tokens tk reg (render_message m) model) =
      map_option (\<lambda>ts. int (length ts)) (enc (render_message m))"
    by (rule ct) (simp add: render_message_def formatted_message_nonempty)
  have prelude: "to_option (count_tokens tk reg assistant_prelude model) =
      map_option (\<lambda>ts. int (length ts)) (enc assistant_prelude)"
    by (rule ct) (simp add: assistant_prelude_def)
  have loop: "to_option (message_loop enc model 0 messages 0) =
      map_option sum_list
        (those (map (\<lambda>m. map_option (\<lambda>ts. int (length ts)) (enc (render_message m))) messages))"
    using message_loop_well_formed [OF assms(2), of enc model 0 0] by simp
  have "well_formed (last messages)"
    using assms(1,2) by (simp add: list_all_iff)
  then have lr: "(dict_get (last messages) ''role'' \<noteq> Some (PyStr ''assistant'')) =
      (role_of (last messages) \<noteq> ''assistant'')"
    by (rule last_role_well_formed)
  have spec: "count_messages_spec tk reg messages model =
      (case those (map (\<lambda>m. map_option (\<lambda>ts. int (length ts)) (enc (render_message m)))
                     messages) of
         None \<Rightarrow> None
       | Some counts \<Rightarrow>
           if role_of (last messages) \<noteq> ''assistant''
           then (case enc assistant_prelude of
                   None \<Rightarrow> None
                 | Some a \<Rightarrow> Some (sum_list counts + int (length a)))
           else Some (sum_list counts))"
    by (simp add: count_messages_spec_def rendered prelude split: option.splits)
  have impl: "to_option (count_message_tokens tk reg messages model) =
      (case to_option (message_loop enc model 0 messages 0) of
         None \<Rightarrow> None
       | Some t \<Rightarrow>
           if role_of (last messages) \<noteq> ''assistant''
           then (case enc assistant_prelude of
                   None \<Rightarrow> None
                 | Some a \<Rightarrow> Some (t + int (length a)))
           else Some t)"
    unfolding count_message_tokens_chat [where reg = reg and model = model, OF assms(1,3-5)]
    by (simp add: Some lr to_option_def split: sum.splits option.splits)
  show ?thesis
    unfolding spec impl loop by (simp split: option.splits)
qed

text \<open>
  Two messages of 32 and 31 tokens, the last one not from the assistant: 22 tokens of
  prelude are added.
\<close>

theorem count_message_tokens_is_sum_of_rendered_counts_witness:
  "to_option (count_message_tokens example_tiktoken example_registry
      [msg ''user'' ''hello'', msg ''system'' ''hi''] ''llama3-8b-8192'') = Some 85 \<and>
   count_tokens example_tiktoken example_registry
      (render_message (msg ''user'' ''hello'')) ''llama3-8b-8192'' = Inr 32 \<and>
   count_tokens example_tiktoken example_registry
      (render_message (msg ''system'' ''hi'')) ''llama3-8b-8192'' = Inr 31 \<and>
   count_tokens example_tiktoken example_registry assistant_prelude ''llama3-8b-8192'' = Inr 22"
proof -
  let ?ms = "[msg ''user'' ''hello'', msg ''system'' ''hi'']"
  have ne: "?ms \<noteq> []" by simp
  have wf: "list_all well_formed ?ms" by (simp add: well_formed_def msg_def)
  have m: "''llama3-8b-8192'' \<noteq> []" by simp
  have r: "example_registry ''llama3-8b-8192'' =
      Some \<lparr>model_type = Chat, max_tokens = Some 8192, max_completion_tokens = Some 8192\<rparr>"
    by (simp add: example_registry_def)
  have k: "model_type
      \<lparr>model_type = Chat, max_tokens = Some 8192, max_completion_tokens = Some 8192\<rparr> = Chat"
    by simp
  have c1: "count_tokens example_tiktoken example_registry
      (render_message (msg ''user'' ''hello'')) ''llama3-8b-8192'' = Inr 32"
    by (simp add: count_tokens_def is_model_supported_def get_type_def get_model_info_def
        get_encoder_def encoding_name_fixed example_tiktoken_def char_tokens_def r
        render_message_def role_of_def content_of_def dict_get_def msg_def
        formatted_message_def)
  have c2: "count_tokens example_tiktoken example_registry
      (render_message (msg ''system'' ''hi'')) ''llama3-8b-8192'' = Inr 31"
    by (simp add: count_tokens_def is_model_supported_def get_type_def get_model_info_def
        get_encoder_def encoding_name_fixed example_tiktoken_def char_tokens_def r
        render_message_def role_of_def content_of_def dict_get_def msg_def
        formatted_message_def)
  have c3: "count_tokens example_tiktoken example_registry assistant_prelude
      ''llama3-8b-8192'' = Inr 22"
    by (simp add: count_tokens_def is_model_supported_def get_type_def get_model_info_def
        get_encoder_def encoding_name_fixed example_tiktoken_def char_tokens_def r
        assistant_prelude_def)
  have lr: "role_of (msg ''system'' ''hi'') = ''system''"
    by (simp add: role_of_def dict_get_def msg_def)
  have "count_messages_spec example_tiktoken example_registry ?ms ''llama3-8b-8192'' = Some 85"
    by (simp add: count_messages_spec_def c1 c2 c3 lr to_option_def)
  with count_message_tokens_is_sum_of_rendered_counts
    [where reg = example_registry and model = "''llama3-8b-8192''" and tk = example_tiktoken,
      OF ne wf m r k]
  show ?thesis using c1 c2 c3 by simp
qed

lemma message_loop_malformed_head:
  assumes "\<not> well_formed m"
  shows "message_loop enc model i (m # post) tot = Inl (MessageFormatError i)"
proof (cases m)
  case (PyDict kvs)
  show ?thesis
  proof (cases "map_of kvs ''role''")
    case None
    then show ?thesis by (simp add: PyDict)
  next
    case role: (Some role)
    show ?thesis
    proof (cases "map_of kvs ''content''")
      case None
      then show ?thesis by (simp add: PyDict role)
    next
      case content: (Some content)
      from assms have "\<not> ((\<exists>r. role = PyStr r) \<and> (\<exists>c. content = PyStr c))"
        by (auto simp add: well_formed_def PyDict role content)
      then show ?thesis
        by (cases role; cases content) (simp_all add: PyDict role content)
    qed
  qed
qed simp_all

lemma message_loop_first_malformed:
  assumes "list_all well_formed pre"
    and "list_all (\<lambda>m. enc (render_message m) \<noteq> None) pre"
    and "\<not> well_formed m"
  shows "message_loop enc model i (pre @ m # post) tot =
           Inl (MessageFormatError (i + length pre))"
  using assms
proof (induction pre arbitrary: i tot)
  case Nil
  then show ?case by (simp del: message_loop.simps add: message_loop_malformed_head)
next
  case (Cons p pre)
  from Cons.prems have wf: "well_formed p" and e: "enc (render_message p) \<noteq> None" by simp_all
  from wf obtain kvs r c where p: "p = PyDict kvs"
    and kr: "map_of kvs ''role'' = Some (PyStr r)"
    and kc: "map_of kvs ''content'' = Some (PyStr c)"
    by (rule well_formedE)
  have rm: "render_message p = formatted_message r c"
    using p kr kc by (rule well_formed_render)
  from e rm obtain ts where ts: "enc (formatted_message r c) = Some ts" by auto
  have "message_loop enc model i ((p # pre) @ m # post) tot =
      message_loop enc model (Suc i) (pre @ m # post) (tot + int (length ts))"
    by (simp add: p kr kc ts)
  also have "\<dots> = Inl (MessageFormatError (Suc i + length pre))"
    using Cons.prems by (intro Cons.IH) simp_all
  finally show ?case by simp
qed

text \<open>
  Claim C9, amended. For a supported chat model whose encoder is available, an empty
  message list raises the validation error for the field \<open>messages\<close>, which is not a
  message-format error; a list whose first malformed element is preceded by well-formed
  messages that encode raises the message-format error carrying that element's index.
\<close>

theorem count_message_tokens_empty_or_malformed:
  assumes "model \<noteq> []" and "reg model = Some info" and "model_type info = Chat"
    and "tk ''cl100k_base'' = Some enc"
  shows "count_message_tokens tk reg [] model = Inl (ValidationError ''messages'') \<and>
         \<not> is_message_format_error (count_message_tokens tk reg [] model) \<and>
         (list_all well_formed pre \<and> list_all (\<lambda>m. enc (render_message m) \<noteq> None) pre \<and>
          \<not> well_formed m \<longrightarrow>
            count_message_tokens tk reg (pre @ m # post) model =
              Inl (MessageFormatError (length pre)))"
proof -
  have empty: "count_message_tokens tk reg [] model = Inl (ValidationError ''messages'')"
    by (simp add: count_message_tokens_def)
  have bad: "count_message_tokens tk reg (pre @ m # post) model =
      Inl (MessageFormatError (length pre))"
    if "list_all well_formed pre" and "list_all (\<lambda>m. enc (render_message m) \<noteq> None) pre"
      and "\<not> well_formed m"
  proof -
    have ne: "pre @ m # post \<noteq> []" by simp
    show ?thesis
      unfolding count_message_tokens_chat [where reg = reg and model = model, OF ne assms(1-3)]
      using message_loop_first_malformed [OF that, of model 0 post 0]
      by (simp add: assms(4))
  qed
  show ?thesis using empty bad by (simp add: is_message_format_error_def)
qed

lemma example_chat_model:
  "example_registry ''llama3-8b-8192'' =
     Some \<lparr>model_type = Chat, max_tokens = Some 8192, max_completion_tokens = Some 8192\<rparr>"
  by (simp add: example_registry_def)

lemma example_stt_model:
  "example_registry ''whisper-large-v3'' =
     Some \<lparr>model_type = Stt, max_tokens = None, max_completion_tokens = None\<rparr>"
  by (simp add: example_registry_def)

lemma example_tiny_model:
  "example_registry ''tiny-chat'' =
     Some \<lparr>model_type = Chat, max_tokens = Some 100, max_completion_tokens = Some 50\<rparr>"
  by (simp add: example_registry_def)

text \<open>The empty list, and a list whose second element is an integer.\<close>

theorem count_message_tokens_empty_or_malformed_witness:
  "count_message_tokens example_tiktoken example_registry [] ''llama3-8b-8192'' =
     Inl (ValidationError ''messages'') \<and>
   count_message_tokens example_tiktoken example_registry
     [msg ''user'' ''hello'', PyInt 3, msg ''user'' ''bye''] ''llama3-8b-8192'' =
     Inl (MessageFormatError 1)"
proof -
  have m: "''llama3-8b-8192'' \<noteq> []" by simp
  have k: "model_type
      \<lparr>model_type = Chat, max_tokens = Some 8192, max_completion_tokens = Some 8192\<rparr> = Chat"
    by simp
  have t: "example_tiktoken ''cl100k_base'' = Some char_tokens"
    by (simp add: example_tiktoken_def)
  have h: "list_all well_formed [msg ''user'' ''hello''] \<and>
      list_all (\<lambda>m. char_tokens (render_message m) \<noteq> None) [msg ''user'' ''hello''] \<and>
      \<not> well_formed (PyInt 3)"
    by (simp add: well_formed_def msg_def char_tokens_def)
  from count_message_tokens_empty_or_malformed
    [where reg = example_registry and model = "''llama3-8b-8192''" and tk = example_tiktoken
       and pre = "[msg ''user'' ''hello'']" and m = "PyInt 3" and post = "[msg ''user'' ''bye'']",
     OF m example_chat_model k t] h
  show ?thesis by simp
qed

text \<open>
  Claim C9, as stated, fails twice: the empty list raises \<open>ValidationError\<close>, and a
  supported speech-to-text model returns 0 for a list of malformed elements.
\<close>

theorem count_message_tokens_message_format_counterexample:
  "count_message_tokens example_tiktoken example_registry [] ''llama3-8b-8192'' =
     Inl (ValidationError ''messages'') \<and>
   \<not> is_message_format_error
       (count_message_tokens example_tiktoken example_registry [] ''llama3-8b-8192'') \<and>
   \<not> list_all well_formed malformed_messages \<and>
   count_message_tokens example_tiktoken example_registry malformed_messages
     ''whisper-large-v3'' = Inr 0 \<and>
   \<not> is_message_format_error
       (count_message_tokens example_tiktoken example_registry malformed_messages
          ''whisper-large-v3'')"
  by (simp add: count_message_tokens_def is_message_format_error_def malformed_messages_def
      well_formed_def is_model_supported_def get_type_def get_model_info_def
      example_stt_model)

text \<open>
  Claim C10. For a supported speech-to-text model, \<open>count_message_tokens\<close> returns 0 for
  every non-empty list, whatever its elements are.
\<close>

theorem count_message_tokens_stt_returns_zero:
  assumes "model \<noteq> []" and "reg model = Some info" and "model_type info = Stt"
    and "messages \<noteq> []"
  shows "count_message_tokens tk reg messages model = Inr 0"
  using assms
  by (simp add: count_message_tokens_def is_model_supported_def get_type_def
      get_model_info_def)

text \<open>
  A list of two malformed elements: 0 for the speech-to-text model, a message-format
  error at index 0 for a chat model.
\<close>

theorem count_message_tokens_stt_returns_zero_witness:
  "\<not> well_formed (PyInt 3) \<and> \<not> well_formed (PyDict [(''role'', PyStr ''user'')]) \<and>
   count_message_tokens example_tiktoken example_registry
     [PyInt 3, PyDict [(''role'', PyStr ''user'')]] ''whisper-large-v3'' = Inr 0 \<and>
   count_message_tokens example_tiktoken example_registry
     [PyInt 3, PyDict [(''role'', PyStr ''user'')]] ''llama3-8b-8192'' =
     Inl (MessageFormatError 0)"
proof -
  have m: "''whisper-large-v3'' \<noteq> []" by simp
  have k: "model_type \<lparr>model_type = Stt, max_tokens = None, max_completion_tokens = None\<rparr>
      = Stt"
    by simp
  have ne: "[PyInt 3, PyDict [(''role'', PyStr ''user'')]] \<noteq> []" by simp
  have chat: "count_message_tokens example_tiktoken example_registry
     [PyInt 3, PyDict [(''role'', PyStr ''user'')]] ''llama3-8b-8192'' =
     Inl (MessageFormatError 0)"
    by (simp add: count_message_tokens_def is_model_supported_def get_type_def
        get_model_info_def example_chat_model get_encoder_def encoding_name_fixed
        example_tiktoken_def)
  from count_message_tokens_stt_returns_zero
    [where reg = example_registry and model = "''whisper-large-v3''" and tk = example_tiktoken,
     OF m example_stt_model k ne] chat
  show ?thesis by (simp add: well_formed_def)
qed

lemma message_loop_not_token_limit:
  "message_loop enc model i ms tot \<noteq> Inl (TokenLimitExceeded a b)"
  by (induction ms arbitrary: i tot) (auto split: pyval.splits option.splits)

lemma count_message_tokens_not_token_limit:
  "count_message_tokens tk reg messages model \<noteq> Inl (TokenLimitExceeded a b)"
  using message_loop_not_token_limit
  by (auto simp add: count_message_tokens_def is_model_supported_def get_type_def
      get_model_info_def
      split: sum.splits bool.splits model_kind.splits option.splits if_splits)

text \<open>
  Claim C4. For a supported chat model with a known context window, the token check that
  \<open>generate\<close> runs before dispatch raises \<open>TokenLimitExceeded\<close> exactly when the messages
  count and the count plus the declared \<open>max_tokens\<close> exceeds the context window; the
  error carries that sum and the context window.
\<close>

theorem check_token_limits_rejects_iff_over_window:
  assumes "model \<noteq> []" and "reg model = Some info" and "model_type info = Chat"
    and "max_tokens info = Some context_window"
  shows "(check_token_limits tk reg messages model declared =
            Inl (TokenLimitExceeded requested allowed)) =
         (\<exists>counted. count_message_tokens tk reg messages model = Inr counted \<and>
            context_window < counted + declared \<and>
            requested = counted + declared \<and> allowed = context_window)"
proof -
  have mx: "get_max_tokens reg model = Inr (Some context_window)"
    using assms by (simp add: get_max_tokens_def get_model_info_def)
  show ?thesis
  proof (cases "count_message_tokens tk reg messages model")
    case (Inl e)
    then have "e \<noteq> TokenLimitExceeded requested allowed"
      using count_message_tokens_not_token_limit by metis
    then show ?thesis
      by (cases e) (simp_all add: check_token_limits_def check_token_limits_body_def Inl)
  next
    case (Inr counted)
    then show ?thesis
      by (auto simp add: check_token_limits_def check_token_limits_body_def mx Let_def)
  qed
qed

text \<open>
  Context window 100, messages counting to 90: declaring 20 is rejected with
  (110, 100), declaring 10 is not rejected.
\<close>

theorem check_token_limits_rejects_iff_over_window_witness:
  "count_message_tokens example_tiktoken example_registry ninety_token_messages ''tiny-chat''
     = Inr 90 \<and>
   check_token_limits example_tiktoken example_registry ninety_token_messages ''tiny-chat'' 20
     = Inl (TokenLimitExceeded 110 100) \<and>
   check_token_limits example_tiktoken example_registry ninety_token_messages ''tiny-chat'' 10
     \<noteq> Inl (TokenLimitExceeded 100 100)"
proof -
  have m: "''tiny-chat'' \<noteq> []" by simp
  have k: "model_type
      \<lparr>model_type = Chat, max_tokens = Some 100, max_completion_tokens = Some 50\<rparr> = Chat"
    by simp
  have w: "max_tokens
      \<lparr>model_type = Chat, max_tokens = Some 100, max_completion_tokens = Some 50\<rparr> = Some 100"
    by simp
  have c: "count_message_tokens example_tiktoken example_registry ninety_token_messages
      ''tiny-chat'' = Inr 90"
    by (simp add: count_message_tokens_def is_model_supported_def get_type_def
        get_model_info_def example_tiny_model get_encoder_def encoding_name_fixed
        example_tiktoken_def char_tokens_def ninety_token_messages_def msg_def
        formatted_message_def assistant_prelude_def dict_get_def)
  from check_token_limits_rejects_iff_over_window
    [where reg = example_registry and model = "''tiny-chat''" and tk = example_tiktoken
       and messages = ninety_token_messages and declared = 20 and requested = 110
       and allowed = 100, OF m example_tiny_model k w]
    check_token_limits_rejects_iff_over_window
    [where reg = example_registry and model = "''tiny-chat''" and tk = example_tiktoken
       and messages = ninety_token_messages and declared = 10 and requested = 100
       and allowed = 100, OF m example_tiny_model k w] c
  show ?thesis by simp
qed

text \<open>
  The counter's own \<open>validate_token_limit\<close> is a different check: a given \<open>max_tokens\<close>
  is the limit the count is compared with, and it is not on the dispatch path.
\<close>

lemma validate_token_limit_takes_max_tokens_as_limit:
  "validate_token_limit example_tiktoken example_registry ninety_token_messages ''tiny-chat''
     (Some 20) = Inl (TokenLimitExceeded 90 20) \<and>
   validate_token_limit example_tiktoken example_registry ninety_token_messages ''tiny-chat''
     None = Inr True"
proof -
  have c: "count_message_tokens example_tiktoken example_registry ninety_token_messages
      ''tiny-chat'' = Inr 90"
    by (simp add: count_message_tokens_def is_model_supported_def get_type_def
        get_model_info_def example_tiny_model get_encoder_def encoding_name_fixed
        example_tiktoken_def char_tokens_def ninety_token_messages_def msg_def
        formatted_message_def assistant_prelude_def dict_get_def)
  show ?thesis
    by (simp add: validate_token_limit_def is_model_supported_def get_max_tokens_def
        get_model_info_def example_tiny_model c)
qed

section \<open>Theorems: priority queue manager\<close>

lemma all_priorities: "(\<forall>p \<in> set [LOW, NORMAL, HIGH, URGENT]. P p) = (\<forall>p. P p)"
proof
  assume a: "\<forall>p \<in> set [LOW, NORMAL, HIGH, URGENT]. P p"
  show "\<forall>p. P p"
  proof
    fix p show "P p" using a by (cases p) simp_all
  qed
qed simp

lemma retry_inv_iff: "retry_inv s = (\<forall>p. list_all request_ok (queues s p))"
  unfolding retry_inv_def list_all_iff [of _ "[LOW, NORMAL, HIGH, URGENT]"]
  by (rule all_priorities)

lemma retry_inv_update:
  "retry_inv s \<Longrightarrow> list_all request_ok xs \<Longrightarrow> queues s' = (queues s)(p := xs) \<Longrightarrow> retry_inv s'"
  by (simp add: retry_inv_iff)

lemma handle_request_error_sync_eq:
  "handle_request_error_sync request err s = handle_request_error request err s"
  unfolding handle_request_error_sync_def handle_request_error_def by (rule refl)

lemma retry_inv_handle_request_error:
  assumes "retry_inv s" and "request_ok request"
  shows "retry_inv (snd (handle_request_error request err s))"
proof (cases "retry_count request < max_retries request")
  case True
  let ?t = "retry_target request"
  let ?r = "request\<lparr>retry_count := retry_count request + 1, priority := ?t\<rparr>"
  have q: "queues (snd (handle_request_error request err s)) =
      (queues s)(?t := queues s ?t @ [?r])"
    using True
    by (cases "original_priority request")
      (simp_all add: handle_request_error_def Let_def retry_target_def)
  have "request_ok ?r" using True assms(2) by (simp add: request_ok_def)
  moreover have "list_all request_ok (queues s ?t)" using assms(1) by (simp add: retry_inv_iff)
  ultimately have "list_all request_ok (queues s ?t @ [?r])" by simp
  with assms(1) show ?thesis using q by (rule retry_inv_update)
next
  case False
  then have "queues (snd (handle_request_error request err s)) = queues s"
    by (simp add: handle_request_error_def Let_def)
  then show ?thesis using assms(1) by (simp add: retry_inv_iff)
qed

lemma queues_wait_for_quota: "queues (snd (wait_for_quota s)) = queues s"
  by (simp add: wait_for_quota_def Let_def split: prod.splits)

lemma queues_execute_request: "queues (snd (execute_request run request s)) = queues s"
proof -
  obtain r s1 where w: "wait_for_quota s = (r, s1)" by (cases "wait_for_quota s")
  have q1: "queues s1 = queues s" using queues_wait_for_quota [of s] w by simp
  show ?thesis
  proof (cases r)
    case (Inl e)
    then show ?thesis using w q1 by (simp add: execute_request_def)
  next
    case (Inr u)
    show ?thesis
    proof (cases "run request")
      case None
      then show ?thesis using w q1 Inr by (simp add: execute_request_def Let_def)
    next
      case (Some e)
      then show ?thesis using w q1 Inr
        by (cases e) (simp_all add: execute_request_def Let_def)
    qed
  qed
qed

lemma retry_inv_pop:
  assumes "retry_inv s" and "queues s p = request # rest"
  shows "request_ok request" and "retry_inv (s\<lparr>queues := (queues s)(p := rest)\<rparr>)"
proof -
  from assms(1) have "list_all request_ok (queues s p)" by (simp add: retry_inv_iff)
  then have l: "list_all request_ok (request # rest)" by (simp add: assms(2))
  then show "request_ok request" by simp
  from l have "list_all request_ok rest" by simp
  with assms(1) show "retry_inv (s\<lparr>queues := (queues s)(p := rest)\<rparr>)"
    by (rule retry_inv_update) simp
qed

lemma retry_inv_process_priority_queue:
  assumes "retry_inv s"
  shows "retry_inv (snd (process_priority_queue run p s))"
proof (cases "queues s p")
  case Nil
  then show ?thesis using assms by (simp add: process_priority_queue_def)
next
  case (Cons request rest)
  let ?s1 = "s\<lparr>queues := (queues s)(p := rest)\<rparr>"
  have ok: "request_ok request" and i1: "retry_inv ?s1"
    using retry_inv_pop [OF assms Cons] by simp_all
  obtain res h where cp:
    "can_proceed (clock ?s1) (tokens_required request) 1 0 (rate_limit_handler ?s1) = (res, h)"
    by (cases "can_proceed (clock ?s1) (tokens_required request) 1 0 (rate_limit_handler ?s1)")
  let ?s2 = "?s1\<lparr>rate_limit_handler := h\<rparr>"
  have i2: "retry_inv ?s2" using i1 by (simp add: retry_inv_iff)
  show ?thesis
  proof (cases res)
    case (Inl e)
    have "snd (process_priority_queue run p s) = snd (handle_request_error request e ?s2)"
      using cp by (simp add: process_priority_queue_def Cons Inl)
    then show ?thesis using retry_inv_handle_request_error [OF i2 ok] by simp
  next
    case (Inr b)
    show ?thesis
    proof (cases b)
      case False
      have "queues (snd (process_priority_queue run p s)) = queues s"
        using cp Cons by (simp add: process_priority_queue_def Inr False Let_def fun_upd_idem)
      then show ?thesis using assms by (simp add: retry_inv_iff)
    next
      case True
      obtain r3 s3 where ex: "execute_request run request ?s2 = (r3, s3)"
        by (cases "execute_request run request ?s2")
      have "queues s3 = queues ?s2" using queues_execute_request [of run request ?s2] ex by simp
      then have i3: "retry_inv s3" using i2 by (simp add: retry_inv_iff)
      show ?thesis
      proof (cases r3)
        case (Inl e)
        have "snd (process_priority_queue run p s) = snd (handle_request_error request e s3)"
          using cp ex by (simp add: process_priority_queue_def Cons Inr True Inl)
        then show ?thesis using retry_inv_handle_request_error [OF i3 ok] by simp
      next
        case r: (Inr u)
        have "snd (process_priority_queue run p s) = s3"
          using cp ex by (simp add: process_priority_queue_def Cons Inr True r)
        then show ?thesis using i3 by simp
      qed
    qed
  qed
qed

lemma process_sync_head:
  assumes "first_nonempty (queues s) [URGENT, HIGH, NORMAL, LOW] = Some p"
    and "queues s p = request # rest"
  shows "process_sync run s =
     (let s1 = s\<lparr>queues := (queues s)(p := rest)\<rparr>
      in case can_proceed (clock s1) (tokens_required request) 1 0 (rate_limit_handler s1) of
           (Inl e, h) \<Rightarrow>
             handle_request_error_sync request e (s1\<lparr>rate_limit_handler := h\<rparr>)
         | (Inr False, h) \<Rightarrow>
             let s2 = s1\<lparr>rate_limit_handler := h\<rparr>
             in (Inr (), s2\<lparr>queues := (queues s2)
                           (priority request := request # queues s2 (priority request))\<rparr>)
         | (Inr True, h) \<Rightarrow>
             (case wait_for_quota (s1\<lparr>rate_limit_handler := h\<rparr>) of
                (Inl e, s3) \<Rightarrow> handle_request_error_sync request e s3
              | (Inr u, s3) \<Rightarrow>
                  let s4 = s3\<lparr>invoked := invoked s3 @ [req_id request]\<rparr>
                  in case run request of
                       Some e \<Rightarrow> handle_request_error_sync request e s4
                     | None \<Rightarrow>
                         (Inr (), s4\<lparr>stats := (stats s4)\<lparr>total_processed :=
                            total_processed (stats s4) + 1\<rparr>\<rparr>)))"
  unfolding process_sync_def assms(1) option.case assms(2) list.case by (rule refl)

lemma process_sync_idle:
  assumes "first_nonempty (queues s) [URGENT, HIGH, NORMAL, LOW] = None"
  shows "process_sync run s = (Inr (), s)"
  unfolding process_sync_def assms option.case by (rule refl)

lemma retry_inv_process_sync:
  assumes "retry_inv s"
  shows "retry_inv (snd (process_sync run s))"
proof (cases "first_nonempty (queues s) [URGENT, HIGH, NORMAL, LOW]")
  case None
  then show ?thesis using assms by (simp add: process_sync_idle)
next
  case (Some p)
  show ?thesis
  proof (cases "queues s p")
    case Nil
    have "process_sync run s = (Inr (), s)"
      unfolding process_sync_def Some option.case Nil list.case by (rule refl)
    then show ?thesis using assms by simp
  next
    case (Cons request rest)
    let ?s1 = "s\<lparr>queues := (queues s)(p := rest)\<rparr>"
    have ok: "request_ok request" and i1: "retry_inv ?s1"
      using retry_inv_pop [OF assms Cons] by simp_all
    obtain res h where cp:
      "can_proceed (clock ?s1) (tokens_required request) 1 0 (rate_limit_handler ?s1) = (res, h)"
      by (cases "can_proceed (clock ?s1) (tokens_required request) 1 0 (rate_limit_handler ?s1)")
    let ?s2 = "?s1\<lparr>rate_limit_handler := h\<rparr>"
    have i2: "retry_inv ?s2" using i1 by (simp add: retry_inv_iff)
    show ?thesis
    proof (cases res)
      case (Inl e)
      have "snd (process_sync run s) = snd (handle_request_error request e ?s2)"
        using cp by (simp add: process_sync_head [OF Some Cons] Inl handle_request_error_sync_eq)
      then show ?thesis using retry_inv_handle_request_error [OF i2 ok] by simp
    next
      case (Inr b)
      show ?thesis
      proof (cases b)
        case False
        have "queues (snd (process_sync run s)) =
            (queues ?s2)(priority request := request # queues ?s2 (priority request))"
          using cp by (simp add: process_sync_head [OF Some Cons] Inr False Let_def)
        moreover have "list_all request_ok (request # queues ?s2 (priority request))"
          using ok i2 by (simp add: retry_inv_iff)
        ultimately show ?thesis using i2 retry_inv_update by blast
      next
        case True
        obtain r3 s3 where w: "wait_for_quota ?s2 = (r3, s3)"
          by (cases "wait_for_quota ?s2")
        have "queues s3 = queues ?s2" using queues_wait_for_quota [of ?s2] w by simp
        then have i3: "retry_inv s3" using i2 by (simp add: retry_inv_iff)
        show ?thesis
        proof (cases r3)
          case (Inl e)
          have "snd (process_sync run s) = snd (handle_request_error request e s3)"
            using cp w
            by (simp add: process_sync_head [OF Some Cons] Inr True Inl handle_request_error_sync_eq)
          then show ?thesis using retry_inv_handle_request_error [OF i3 ok] by simp
        next
          case r: (Inr u)
          let ?s4 = "s3\<lparr>invoked := invoked s3 @ [req_id request]\<rparr>"
          have i4: "retry_inv ?s4" using i3 by (simp add: retry_inv_iff)
          show ?thesis
          proof (cases "run request")
            case None
            have "queues (snd (process_sync run s)) = queues ?s4"
              using cp w by (simp add: process_sync_head [OF Some Cons] Inr True r None Let_def)
            then show ?thesis using i4 by (simp add: retry_inv_iff)
          next
            case e: (Some e)
            have "snd (process_sync run s) = snd (handle_request_error request e ?s4)"
              using cp w
              by (simp add: process_sync_head [OF Some Cons] Inr True r e Let_def
                  handle_request_error_sync_eq)
            then show ?thesis using retry_inv_handle_request_error [OF i4 ok] by simp
          qed
        qed
      qed
    qed
  qed
qed

lemma queues_generate_request_id: "queues (snd (generate_request_id s)) = queues s"
  by (simp add: generate_request_id_def Let_def)

lemma retry_inv_enqueue:
  assumes "retry_inv s"
  shows "retry_inv (snd (enqueue func priority_arg tokens_arg retries_arg s))"
proof (cases "tokens_arg < 0 \<or> retries_arg < 0")
  case True
  then show ?thesis using assms by (auto simp add: enqueue_def)
next
  case False
  show ?thesis
  proof (cases "queue_full_check s")
    case (Inl e)
    then show ?thesis using assms False by (simp add: enqueue_def Let_def)
  next
    case (Inr u)
    let ?p = "case parse_priority priority_arg of Some p \<Rightarrow> p | None \<Rightarrow> NORMAL"
    obtain rid s1 where g: "generate_request_id s = (rid, s1)"
      by (cases "generate_request_id s")
    have q1: "queues s1 = queues s" using queues_generate_request_id [of s] g by simp
    let ?r = "\<lparr>req_id = rid, request_func = func, priority = ?p, timestamp = clock s1,
               retry_count = 0, max_retries = retries_arg, tokens_required = tokens_arg,
               original_priority = Some ?p\<rparr>"
    have "queues (snd (enqueue func priority_arg tokens_arg retries_arg s)) =
        (queues s)(?p := queues s ?p @ [?r])"
      using False Inr g q1 by (simp add: enqueue_def Let_def start_processing_def)
    moreover have "list_all request_ok (queues s ?p @ [?r])"
      using assms False by (simp add: retry_inv_iff request_ok_def)
    ultimately show ?thesis using assms retry_inv_update by blast
  qed
qed

lemma retry_inv_clear_queue:
  assumes "retry_inv s"
  shows "retry_inv (snd (clear_queue priority_opt s))"
  using assms
  by (auto simp add: clear_queue_def retry_inv_iff split: option.splits)

lemma retry_inv_reachable: "qm_reachable s \<Longrightarrow> retry_inv s"
proof (induction rule: qm_reachable.induct)
  case (r_init handler cap now s)
  then show ?case
    by (auto simp add: queue_manager_init_def retry_inv_iff split: if_splits)
next
  case (r_enqueue s func priority_arg tokens_arg retries_arg)
  then show ?case by (simp add: retry_inv_enqueue)
next
  case (r_async s run p)
  then show ?case by (simp add: retry_inv_process_priority_queue)
next
  case (r_sync s run)
  then show ?case by (simp add: retry_inv_process_sync)
next
  case (r_clear s priority_opt)
  then show ?case by (simp add: retry_inv_clear_queue)
next
  case (r_stop s)
  then show ?case by (simp add: retry_inv_iff stop_processing_def)
next
  case (r_tracker s h)
  then show ?case by (simp add: retry_inv_iff)
next
  case (r_clock s t)
  then show ?case by (simp add: retry_inv_iff)
qed

lemma str_int_small: "str_int 1000 = ''1000''" "str_int 1 = ''1''" "str_int 2 = ''2''"
  "str_int 3 = ''3''"
  by code_simp+

lemma parse_priority_examples:
  "parse_priority ''URGENT'' = Some URGENT" "parse_priority ''urgent'' = Some URGENT"
  "parse_priority ''normal'' = Some NORMAL" "parse_priority ''high'' = Some HIGH"
  "parse_priority ''low'' = Some LOW" "parse_priority ''unknown-value'' = None"
  by (simp_all add: parse_priority_def lower_def lower_char_def)

lemma precedence_example_state:
  "precedence_example =
     (fresh_manager 1000)
       \<lparr>queues := (\<lambda>p. [])
          (URGENT := [example_request ''req_1000_1'' 11 URGENT,
                      example_request ''req_1000_2'' 12 URGENT],
           NORMAL := [example_request ''req_1000_3'' 13 NORMAL]),
        processing := True, request_counter := 3,
        stats := \<lparr>total_queued = 3, total_processed = 0, total_failed = 0,
                  total_retries = 0\<rparr>\<rparr>"
  by (simp add: precedence_example_def enqueue_def queue_full_check_def queue_total_def
      generate_request_id_def start_processing_def fresh_manager_def Let_def py_trunc_def
      str_int_small parse_priority_examples example_request_def)

lemmas tracker_eval = can_proceed_def lazy_reset_def wait_for_quota_def clock_after_wait_def
  wait_time_locked_def wait_if_needed_def init_handler_def Let_def

lemma fresh_manager_init: "queue_manager_init None cap 1000 = Inr (fresh_manager cap)" if "0 < cap"
  using that by (simp add: queue_manager_init_def fresh_manager_def)

lemma precedence_example_reachable: "qm_reachable precedence_example"
proof -
  have "qm_reachable (fresh_manager 1000)"
    by (rule qm_reachable.r_init [OF fresh_manager_init]) simp
  then show ?thesis
    unfolding precedence_example_def by (intro qm_reachable.r_enqueue)
qed

lemma precedence_example_queues:
  "queues precedence_example URGENT =
     [example_request ''req_1000_1'' 11 URGENT, example_request ''req_1000_2'' 12 URGENT]"
  "queues precedence_example HIGH = []"
  "queues precedence_example NORMAL = [example_request ''req_1000_3'' 13 NORMAL]"
  "queues precedence_example LOW = []"
  by (simp_all add: precedence_example_state)

lemma precedence_example_fields:
  "rate_limit_handler precedence_example = init_handler"
  "clock precedence_example = 1000"
  "invoked precedence_example = []"
  by (simp_all add: precedence_example_state fresh_manager_def)

lemma after_first_urgent_fields:
  "invoked after_first_urgent = [''req_1000_1'']"
  "queues after_first_urgent URGENT = [example_request ''req_1000_2'' 12 URGENT]"
  "queues after_first_urgent HIGH = []"
  "queues after_first_urgent NORMAL = [example_request ''req_1000_3'' 13 NORMAL]"
  "queues after_first_urgent LOW = []"
  "rate_limit_handler after_first_urgent = init_handler"
  "clock after_first_urgent = 1060"
  by (simp_all add: after_first_urgent_def process_priority_queue_def execute_request_def
      precedence_example_queues precedence_example_fields always_returns_def
      example_request_def tracker_eval)

lemma after_rest_of_iteration:
  "invoked (snd (process_priorities always_returns [HIGH, NORMAL, LOW] after_first_urgent)) =
     [''req_1000_1'', ''req_1000_3'']"
  "queues (snd (process_priorities always_returns [HIGH, NORMAL, LOW] after_first_urgent))
     URGENT = [example_request ''req_1000_2'' 12 URGENT]"
  by (simp_all add: process_priority_queue_def execute_request_def after_first_urgent_fields
      always_returns_def example_request_def tracker_eval)

lemma iteration_invoked:
  "invoked (process_queue_iteration always_returns precedence_example) =
     [''req_1000_1'', ''req_1000_3'']"
  by (simp add: process_queue_iteration_def process_priority_queue_def execute_request_def
      precedence_example_queues precedence_example_fields always_returns_def
      example_request_def tracker_eval)

text \<open>
  Claim C5. Two urgent requests and one normal request are queued, the tracker admits
  everything and every callable returns. One iteration of the asynchronous loop serves
  the first urgent request, leaves the second at the head of the urgent queue, where the
  tracker would admit it, and goes on to invoke the normal request: the invocation order
  of the iteration is first urgent, normal. The synchronous path serves the same state in
  the order urgent, urgent, normal (\<open>sync_path_precedence_example\<close> below).
\<close>

theorem async_iteration_dispatches_normal_before_waiting_urgent:
  "qm_reachable precedence_example \<and>
   queues precedence_example URGENT =
     [example_request ''req_1000_1'' 11 URGENT, example_request ''req_1000_2'' 12 URGENT] \<and>
   queues precedence_example NORMAL = [example_request ''req_1000_3'' 13 NORMAL] \<and>
   invoked after_first_urgent = [''req_1000_1''] \<and>
   queues after_first_urgent URGENT = [example_request ''req_1000_2'' 12 URGENT] \<and>
   fst (can_proceed (clock after_first_urgent)
          (tokens_required (example_request ''req_1000_2'' 12 URGENT)) 1 0
          (rate_limit_handler after_first_urgent)) = Inr True \<and>
   invoked (snd (process_priorities always_returns [HIGH, NORMAL, LOW] after_first_urgent)) =
     [''req_1000_1'', ''req_1000_3''] \<and>
   queues (snd (process_priorities always_returns [HIGH, NORMAL, LOW] after_first_urgent))
     URGENT = [example_request ''req_1000_2'' 12 URGENT] \<and>
   invoked (process_queue_iteration always_returns precedence_example) =
     [''req_1000_1'', ''req_1000_3'']"
proof -
  have "fst (can_proceed (clock after_first_urgent)
          (tokens_required (example_request ''req_1000_2'' 12 URGENT)) 1 0
          (rate_limit_handler after_first_urgent)) = Inr True"
    by (simp add: after_first_urgent_fields example_request_def tracker_eval)
  then show ?thesis
    using precedence_example_reachable precedence_example_queues after_first_urgent_fields
      after_rest_of_iteration iteration_invoked
    by simp
qed

text \<open>
  The synchronous path keeps strict precedence: while the urgent queue is not empty, the
  only callable one step can invoke is that of the urgent head.
\<close>

lemma first_nonempty_urgent:
  "qs URGENT \<noteq> [] \<Longrightarrow> first_nonempty qs [URGENT, HIGH, NORMAL, LOW] = Some URGENT"
  by simp

lemma invoked_handle_request_error:
  "invoked (snd (handle_request_error request err s)) = invoked s"
  by (simp add: handle_request_error_def Let_def)

lemma invoked_wait_for_quota: "invoked (snd (wait_for_quota s)) = invoked s"
  by (simp add: wait_for_quota_def Let_def split: prod.splits)

lemma process_sync_invokes_only_urgent_head:
  assumes "queues s URGENT = request # rest"
  shows "invoked (snd (process_sync run s)) = invoked s \<or>
         invoked (snd (process_sync run s)) = invoked s @ [req_id request]"
proof -
  have f: "first_nonempty (queues s) [URGENT, HIGH, NORMAL, LOW] = Some URGENT"
    using assms by (simp add: first_nonempty_urgent)
  let ?s1 = "s\<lparr>queues := (queues s)(URGENT := rest)\<rparr>"
  obtain res h where cp:
    "can_proceed (clock ?s1) (tokens_required request) 1 0 (rate_limit_handler ?s1) = (res, h)"
    by (cases "can_proceed (clock ?s1) (tokens_required request) 1 0 (rate_limit_handler ?s1)")
  let ?s2 = "?s1\<lparr>rate_limit_handler := h\<rparr>"
  obtain r3 s3 where w: "wait_for_quota ?s2 = (r3, s3)" by (cases "wait_for_quota ?s2")
  have i3: "invoked s3 = invoked s" using invoked_wait_for_quota [of ?s2] w by simp
  show ?thesis
  proof (cases res)
    case (Inl e)
    then show ?thesis using cp
      by (simp add: process_sync_head [OF f assms] handle_request_error_sync_eq
          invoked_handle_request_error)
  next
    case (Inr b)
    show ?thesis
    proof (cases b)
      case False
      then show ?thesis using cp Inr
        by (simp add: process_sync_head [OF f assms] Let_def)
    next
      case True
      show ?thesis
      proof (cases r3)
        case (Inl e)
        then show ?thesis using cp w i3 Inr True
          by (simp add: process_sync_head [OF f assms] handle_request_error_sync_eq
              invoked_handle_request_error)
      next
        case r: (Inr u)
        show ?thesis
        proof (cases "run request")
          case None
          then show ?thesis using cp w i3 Inr True r
            by (simp add: process_sync_head [OF f assms] Let_def)
        next
          case (Some e)
          then show ?thesis using cp w i3 Inr True r
            by (simp add: process_sync_head [OF f assms] Let_def handle_request_error_sync_eq
                invoked_handle_request_error)
        qed
      qed
    qed
  qed
qed

lemma sync_path_precedence_example:
  "fst (process_queue 5 always_returns precedence_example) = Some (Inr ()) \<and>
   invoked (snd (process_queue 5 always_returns precedence_example)) =
     [''req_1000_1'', ''req_1000_2'', ''req_1000_3'']"
proof -
  have n: "process_queue 5 always_returns precedence_example =
      process_queue (Suc (Suc (Suc (Suc (Suc 0))))) always_returns precedence_example"
    by (simp add: eval_nat_numeral)
  show ?thesis
    unfolding n
    by (simp add: has_pending_requests_def process_sync_def handle_request_error_sync_def
        precedence_example_queues precedence_example_fields always_returns_def
        example_request_def tracker_eval)
qed

text \<open>
  What becomes of the \<open>RetryError\<close>: \<open>_process_priority_queue\<close> raises it, the
  asynchronous loop catches it and sleeps one second, and \<open>process_queue\<close> turns it
  into \<open>ThreadingError\<close>.
\<close>

lemma no_retry_example_state:
  "no_retry_example =
     (fresh_manager 1000)
       \<lparr>queues := (\<lambda>p. [])(NORMAL := [(example_request ''req_1000_1'' 11 NORMAL)
                                          \<lparr>max_retries := 0\<rparr>]),
        processing := True, request_counter := 1,
        stats := \<lparr>total_queued = 1, total_processed = 0, total_failed = 0,
                  total_retries = 0\<rparr>\<rparr>"
  by (simp add: no_retry_example_def enqueue_def queue_full_check_def queue_total_def
      generate_request_id_def start_processing_def fresh_manager_def Let_def py_trunc_def
      str_int_small parse_priority_examples example_request_def)

lemma retry_error_in_the_two_loops:
  "fst (process_priority_queue always_raises NORMAL no_retry_example) =
     Inl (RetryError 0 (ExternalError ''boom'')) \<and>
   queues (process_queue_iteration always_raises no_retry_example) NORMAL = [] \<and>
   clock (process_queue_iteration always_raises no_retry_example) = 1061 \<and>
   fst (process_queue 1 always_raises no_retry_example) = Some (Inl ThreadingError)"
proof -
  have q: "queues no_retry_example URGENT = []" "queues no_retry_example HIGH = []"
    "queues no_retry_example NORMAL =
       [(example_request ''req_1000_1'' 11 NORMAL)\<lparr>max_retries := 0\<rparr>]"
    "queues no_retry_example LOW = []"
    "rate_limit_handler no_retry_example = init_handler" "clock no_retry_example = 1000"
    by (simp_all add: no_retry_example_state fresh_manager_def)
  have a: "fst (process_priority_queue always_raises NORMAL no_retry_example) =
     Inl (RetryError 0 (ExternalError ''boom''))"
    by (simp add: process_priority_queue_def execute_request_def handle_request_error_def q
        always_raises_def example_request_def tracker_eval)
  have b: "queues (process_queue_iteration always_raises no_retry_example) NORMAL = [] \<and>
      clock (process_queue_iteration always_raises no_retry_example) = 1061"
    by (simp add: process_queue_iteration_def process_priority_queue_def execute_request_def
        handle_request_error_def q always_raises_def example_request_def tracker_eval)
  have n: "process_queue 1 always_raises no_retry_example =
      process_queue (Suc 0) always_raises no_retry_example"
    by simp
  have c: "fst (process_queue 1 always_raises no_retry_example) = Some (Inl ThreadingError)"
    unfolding n
    by (simp add: has_pending_requests_def process_sync_def handle_request_error_sync_def q
        always_raises_def example_request_def tracker_eval)
  show ?thesis using a b c by simp
qed

text \<open>
  How a failed execution reaches the handler: in both paths the exception of the call,
  or of the wait before it, is handed to the error handler together with the popped
  request.
\<close>

lemma stats_wait_for_quota: "stats (snd (wait_for_quota s)) = stats s"
  by (simp add: wait_for_quota_def Let_def split: prod.splits)

lemma failed_call_async:
  assumes "admitted d p request rest h w" and "run request = Some cause"
  shows "process_priority_queue run p d =
     handle_request_error request
       (if cause = AsyncioTimeoutError then RequestTimeoutError 30 else cause)
       (w\<lparr>invoked := invoked w @ [req_id request]\<rparr>)"
proof -
  from assms(1) have q: "queues d p = request # rest"
    and c: "can_proceed (clock d) (tokens_required request) 1 0 (rate_limit_handler d) =
      (Inr True, h)"
    and w: "wait_for_quota (d\<lparr>queues := (queues d)(p := rest), rate_limit_handler := h\<rparr>) =
      (Inr (), w)"
    by (simp_all add: admitted_def)
  show ?thesis
    using assms(2)
    by (cases cause) (simp_all add: process_priority_queue_def execute_request_def q c w Let_def)
qed

lemma failed_wait_async:
  assumes "wait_failed d p request rest h w cause"
  shows "process_priority_queue run p d = handle_request_error request cause w"
proof -
  from assms have q: "queues d p = request # rest"
    and c: "can_proceed (clock d) (tokens_required request) 1 0 (rate_limit_handler d) =
      (Inr True, h)"
    and w: "wait_for_quota (d\<lparr>queues := (queues d)(p := rest), rate_limit_handler := h\<rparr>) =
      (Inl cause, w)"
    by (simp_all add: wait_failed_def)
  show ?thesis
    by (simp add: process_priority_queue_def execute_request_def q c w Let_def)
qed

lemma failed_call_sync:
  assumes "selected d p" and "admitted d p request rest h w" and "run request = Some cause"
  shows "process_sync run d =
     handle_request_error_sync request cause (w\<lparr>invoked := invoked w @ [req_id request]\<rparr>)"
proof -
  from assms(2) have q: "queues d p = request # rest"
    and c: "can_proceed (clock d) (tokens_required request) 1 0 (rate_limit_handler d) =
      (Inr True, h)"
    and w: "wait_for_quota (d\<lparr>queues := (queues d)(p := rest), rate_limit_handler := h\<rparr>) =
      (Inr (), w)"
    by (simp_all add: admitted_def)
  from assms(1) have f: "first_nonempty (queues d) [URGENT, HIGH, NORMAL, LOW] = Some p"
    by (simp only: selected_def)
  show ?thesis
    using assms(3) by (simp add: process_sync_head [OF f q] c w Let_def)
qed

lemma failed_wait_sync:
  assumes "selected d p" and "wait_failed d p request rest h w cause"
  shows "process_sync run d = handle_request_error_sync request cause w"
proof -
  from assms(2) have q: "queues d p = request # rest"
    and c: "can_proceed (clock d) (tokens_required request) 1 0 (rate_limit_handler d) =
      (Inr True, h)"
    and w: "wait_for_quota (d\<lparr>queues := (queues d)(p := rest), rate_limit_handler := h\<rparr>) =
      (Inl cause, w)"
    by (simp_all add: wait_failed_def)
  from assms(1) have f: "first_nonempty (queues d) [URGENT, HIGH, NORMAL, LOW] = Some p"
    by (simp only: selected_def)
  show ?thesis
    by (simp add: process_sync_head [OF f q] c w Let_def)
qed

lemma admitted_state:
  assumes "admitted d p request rest h w"
  shows "queues w = (queues d)(p := rest)" and "stats w = stats d"
proof -
  let ?s = "d\<lparr>queues := (queues d)(p := rest), rate_limit_handler := h\<rparr>"
  from assms have w: "wait_for_quota ?s = (Inr (), w)" by (simp add: admitted_def)
  show "queues w = (queues d)(p := rest)" using queues_wait_for_quota [of ?s] w by simp
  show "stats w = stats d" using stats_wait_for_quota [of ?s] w by simp
qed

lemma handle_request_error_retry:
  assumes "retry_count request < max_retries request"
  shows "fst (handle_request_error request err s) = Inr () \<and>
      queues (snd (handle_request_error request err s)) =
        (queues s)(retry_target request := queues s (retry_target request) @
           [request\<lparr>retry_count := retry_count request + 1,
                    priority := retry_target request\<rparr>]) \<and>
      total_retries (stats (snd (handle_request_error request err s))) =
        total_retries (stats s) + 1"
  using assms
  by (cases "original_priority request")
    (simp_all add: handle_request_error_def Let_def retry_target_def)

lemma handle_request_error_exhausted:
  assumes "\<not> retry_count request < max_retries request"
  shows "fst (handle_request_error request err s) =
        Inl (RetryError (max_retries request) err) \<and>
      queues (snd (handle_request_error request err s)) = queues s \<and>
      total_retries (stats (snd (handle_request_error request err s))) =
        total_retries (stats s)"
  using assms by (simp add: handle_request_error_def Let_def)

text \<open>
  Claim C6. When the execution of a dispatched request fails, in either path, the
  dispatcher hands the request and the exception to the error handler. With retries left
  the retry count grows by one, the retry statistic grows by one, and the request is
  appended to the queue of its original priority (of its current priority when no
  original one is recorded); the dispatch itself raises nothing. Otherwise \<open>RetryError\<close>
  is raised with the retry budget and the failure that caused it, and the request is in
  no queue any more. The synchronous handler does the same as the asynchronous one. In
  every reachable state each queued request has \<open>0 \<le> retry_count \<le> max_retries\<close>.
\<close>

theorem retry_policy:
  "(retry_count request < max_retries request \<longrightarrow>
      fst (handle_request_error request err s) = Inr () \<and>
      queues (snd (handle_request_error request err s)) =
        (queues s)(retry_target request := queues s (retry_target request) @
           [request\<lparr>retry_count := retry_count request + 1,
                    priority := retry_target request\<rparr>]) \<and>
      total_retries (stats (snd (handle_request_error request err s))) =
        total_retries (stats s) + 1 \<and>
      (\<forall>p. original_priority request = Some p \<longrightarrow> retry_target request = p)) \<and>
   (\<not> retry_count request < max_retries request \<longrightarrow>
      fst (handle_request_error request err s) =
        Inl (RetryError (max_retries request) err) \<and>
      queues (snd (handle_request_error request err s)) = queues s \<and>
      total_retries (stats (snd (handle_request_error request err s))) =
        total_retries (stats s)) \<and>
   handle_request_error_sync request err s = handle_request_error request err s \<and>
   (qm_reachable s' \<longrightarrow>
      (\<forall>p. \<forall>r \<in> set (queues s' p). 0 \<le> retry_count r \<and> retry_count r \<le> max_retries r)) \<and>
   (admitted d p request rest h w \<and> run request = Some cause \<longrightarrow>
      process_priority_queue run p d =
        handle_request_error request
          (if cause = AsyncioTimeoutError then RequestTimeoutError 30 else cause)
          (w\<lparr>invoked := invoked w @ [req_id request]\<rparr>)) \<and>
   (wait_failed d p request rest h w cause \<longrightarrow>
      process_priority_queue run p d = handle_request_error request cause w) \<and>
   (selected d p \<and> admitted d p request rest h w \<and> run request = Some cause \<longrightarrow>
      process_sync run d =
        handle_request_error_sync request cause
          (w\<lparr>invoked := invoked w @ [req_id request]\<rparr>)) \<and>
   (selected d p \<and> wait_failed d p request rest h w cause \<longrightarrow>
      process_sync run d = handle_request_error_sync request cause w) \<and>
   (admitted d p request rest h w \<and> run request = Some cause \<and>
    retry_count request < max_retries request \<longrightarrow>
      fst (process_priority_queue run p d) = Inr () \<and>
      queues (snd (process_priority_queue run p d)) =
        ((queues d)(p := rest))(retry_target request :=
           ((queues d)(p := rest)) (retry_target request) @
           [request\<lparr>retry_count := retry_count request + 1,
                    priority := retry_target request\<rparr>]) \<and>
      total_retries (stats (snd (process_priority_queue run p d))) =
        total_retries (stats d) + 1) \<and>
   (admitted d p request rest h w \<and> run request = Some cause \<and>
    \<not> retry_count request < max_retries request \<longrightarrow>
      fst (process_priority_queue run p d) =
        Inl (RetryError (max_retries request)
               (if cause = AsyncioTimeoutError then RequestTimeoutError 30 else cause)) \<and>
      queues (snd (process_priority_queue run p d)) = (queues d)(p := rest) \<and>
      total_retries (stats (snd (process_priority_queue run p d))) = total_retries (stats d)) \<and>
   (selected d p \<and> admitted d p request rest h w \<and> run request = Some cause \<and>
    retry_count request < max_retries request \<longrightarrow>
      fst (process_sync run d) = Inr () \<and>
      queues (snd (process_sync run d)) =
        ((queues d)(p := rest))(retry_target request :=
           ((queues d)(p := rest)) (retry_target request) @
           [request\<lparr>retry_count := retry_count request + 1,
                    priority := retry_target request\<rparr>]) \<and>
      total_retries (stats (snd (process_sync run d))) = total_retries (stats d) + 1) \<and>
   (selected d p \<and> admitted d p request rest h w \<and> run request = Some cause \<and>
    \<not> retry_count request < max_retries request \<longrightarrow>
      fst (process_sync run d) = Inl (RetryError (max_retries request) cause) \<and>
      queues (snd (process_sync run d)) = (queues d)(p := rest) \<and>
      total_retries (stats (snd (process_sync run d))) = total_retries (stats d))"
proof -
  let ?w = "w\<lparr>invoked := invoked w @ [req_id request]\<rparr>"
  let ?c = "if cause = AsyncioTimeoutError then RequestTimeoutError 30 else cause"
  have target: "\<forall>p. original_priority request = Some p \<longrightarrow> retry_target request = p"
    by (simp add: retry_target_def)
  have inv: "\<forall>p. \<forall>r \<in> set (queues s' p). 0 \<le> retry_count r \<and> retry_count r \<le> max_retries r"
    if "qm_reachable s'"
    using retry_inv_reachable [OF that]
    by (simp add: retry_inv_iff list_all_iff request_ok_def)
  have wq: "queues ?w = (queues d)(p := rest)" and ws: "stats ?w = stats d"
    if "admitted d p request rest h w"
    using admitted_state [OF that] by simp_all
  have a_retry: "fst (process_priority_queue run p d) = Inr () \<and>
      queues (snd (process_priority_queue run p d)) =
        ((queues d)(p := rest))(retry_target request :=
           ((queues d)(p := rest)) (retry_target request) @
           [request\<lparr>retry_count := retry_count request + 1,
                    priority := retry_target request\<rparr>]) \<and>
      total_retries (stats (snd (process_priority_queue run p d))) =
        total_retries (stats d) + 1"
    if "admitted d p request rest h w" and "run request = Some cause"
      and "retry_count request < max_retries request"
    using handle_request_error_retry [OF that(3), of ?c ?w]
    by (simp only: failed_call_async [where run = run and request = request, OF that(1,2)] wq [OF that(1)] ws [OF that(1)])
  have a_done: "fst (process_priority_queue run p d) =
        Inl (RetryError (max_retries request) ?c) \<and>
      queues (snd (process_priority_queue run p d)) = (queues d)(p := rest) \<and>
      total_retries (stats (snd (process_priority_queue run p d))) = total_retries (stats d)"
    if "admitted d p request rest h w" and "run request = Some cause"
      and "\<not> retry_count request < max_retries request"
    using handle_request_error_exhausted [OF that(3), of ?c ?w]
    by (simp only: failed_call_async [where run = run and request = request, OF that(1,2)] wq [OF that(1)] ws [OF that(1)])
  have s_retry: "fst (process_sync run d) = Inr () \<and>
      queues (snd (process_sync run d)) =
        ((queues d)(p := rest))(retry_target request :=
           ((queues d)(p := rest)) (retry_target request) @
           [request\<lparr>retry_count := retry_count request + 1,
                    priority := retry_target request\<rparr>]) \<and>
      total_retries (stats (snd (process_sync run d))) = total_retries (stats d) + 1"
    if "selected d p" and "admitted d p request rest h w" and "run request = Some cause"
      and "retry_count request < max_retries request"
    using handle_request_error_retry [OF that(4), of cause ?w]
    by (simp only: failed_call_sync [where run = run and request = request, OF that(1,2,3)] handle_request_error_sync_eq
        wq [OF that(2)] ws [OF that(2)])
  have s_done: "fst (process_sync run d) = Inl (RetryError (max_retries request) cause) \<and>
      queues (snd (process_sync run d)) = (queues d)(p := rest) \<and>
      total_retries (stats (snd (process_sync run d))) = total_retries (stats d)"
    if "selected d p" and "admitted d p request rest h w" and "run request = Some cause"
      and "\<not> retry_count request < max_retries request"
    using handle_request_error_exhausted [OF that(4), of cause ?w]
    by (simp only: failed_call_sync [where run = run and request = request, OF that(1,2,3)] handle_request_error_sync_eq
        wq [OF that(2)] ws [OF that(2)])
  show ?thesis
    apply (intro conjI)
    subgoal using handle_request_error_retry [of request err s] target by blast
    subgoal using handle_request_error_exhausted [of request err s] by blast
    subgoal by (rule handle_request_error_sync_eq)
    subgoal using inv by blast
    subgoal using failed_call_async [of d p request rest h w run cause] by blast
    subgoal using failed_wait_async [of d p request rest h w cause run] by blast
    subgoal using failed_call_sync [of d p request rest h w run cause] by blast
    subgoal using failed_wait_sync [of d p request rest h w cause run] by blast
    subgoal using a_retry by blast
    subgoal using a_done by blast
    subgoal using s_retry by blast
    subgoal using s_done by blast
    done
qed

lemma failing_example_state:
  "failing_example =
     (fresh_manager 1000)
       \<lparr>queues := (\<lambda>p. [])(NORMAL := [example_request ''req_1000_1'' 11 NORMAL]),
        processing := True, request_counter := 1,
        stats := \<lparr>total_queued = 1, total_processed = 0, total_failed = 0,
                  total_retries = 0\<rparr>\<rparr>"
  by (simp add: failing_example_def enqueue_def queue_full_check_def queue_total_def
      generate_request_id_def start_processing_def fresh_manager_def Let_def py_trunc_def
      str_int_small parse_priority_examples example_request_def)

lemma failing_example_reachable: "qm_reachable failing_example"
proof -
  have "qm_reachable (fresh_manager 1000)"
    by (rule qm_reachable.r_init [OF fresh_manager_init]) simp
  then show ?thesis
    unfolding failing_example_def by (rule qm_reachable.r_enqueue)
qed

lemma can_proceed_fresh:
  "can_proceed 1000 0 1 0 init_handler = (Inr True, init_handler)"
  by (simp add: can_proceed_def lazy_reset_def init_handler_def Let_def)

lemma wait_for_quota_returns:
  assumes "rate_limit_handler x = init_handler"
  shows "fst (wait_for_quota x) = Inr ()"
  using assms
  by (simp add: wait_for_quota_def clock_after_wait_def wait_time_locked_def
      wait_if_needed_def init_handler_def Let_def)

lemma failing_example_admitted:
  "selected failing_example NORMAL \<and>
   admitted failing_example NORMAL (example_request ''req_1000_1'' 11 NORMAL) [] init_handler
     (snd (wait_for_quota (failing_example
        \<lparr>queues := (queues failing_example)(NORMAL := []),
         rate_limit_handler := init_handler\<rparr>)))"
proof -
  let ?x = "failing_example\<lparr>queues := (queues failing_example)(NORMAL := []),
      rate_limit_handler := init_handler\<rparr>"
  have q: "queues failing_example NORMAL = [example_request ''req_1000_1'' 11 NORMAL]"
    "queues failing_example URGENT = []" "queues failing_example HIGH = []"
    "rate_limit_handler failing_example = init_handler" "clock failing_example = 1000"
    by (simp_all add: failing_example_state fresh_manager_def)
  have t: "tokens_required (example_request ''req_1000_1'' 11 NORMAL) = 0"
    by (simp add: example_request_def)
  have "fst (wait_for_quota ?x) = Inr ()" by (rule wait_for_quota_returns) simp
  then have w: "wait_for_quota ?x = (Inr (), snd (wait_for_quota ?x))"
    by (simp add: prod_eq_iff)
  have s: "selected failing_example NORMAL" by (simp add: selected_def q)
  show ?thesis
    unfolding admitted_def
    using s q(1) w by (simp only: q(4,5) t can_proceed_fresh simp_thms)
qed

lemma no_retry_example_admitted:
  "selected no_retry_example NORMAL \<and>
   admitted no_retry_example NORMAL
     ((example_request ''req_1000_1'' 11 NORMAL)\<lparr>max_retries := 0\<rparr>) [] init_handler
     (snd (wait_for_quota (no_retry_example
        \<lparr>queues := (queues no_retry_example)(NORMAL := []),
         rate_limit_handler := init_handler\<rparr>)))"
proof -
  let ?x = "no_retry_example\<lparr>queues := (queues no_retry_example)(NORMAL := []),
      rate_limit_handler := init_handler\<rparr>"
  have q: "queues no_retry_example NORMAL =
      [(example_request ''req_1000_1'' 11 NORMAL)\<lparr>max_retries := 0\<rparr>]"
    "queues no_retry_example URGENT = []" "queues no_retry_example HIGH = []"
    "rate_limit_handler no_retry_example = init_handler" "clock no_retry_example = 1000"
    by (simp_all add: no_retry_example_state fresh_manager_def)
  have t: "tokens_required ((example_request ''req_1000_1'' 11 NORMAL)\<lparr>max_retries := 0\<rparr>) = 0"
    by (simp add: example_request_def)
  have "fst (wait_for_quota ?x) = Inr ()" by (rule wait_for_quota_returns) simp
  then have w: "wait_for_quota ?x = (Inr (), snd (wait_for_quota ?x))"
    by (simp add: prod_eq_iff)
  have s: "selected no_retry_example NORMAL" by (simp add: selected_def q)
  show ?thesis
    unfolding admitted_def
    using s q(1) w by (simp only: q(4,5) t can_proceed_fresh simp_thms)
qed

text \<open>
  A request with three retries whose callable raises is dispatched on both paths and
  comes back with retry count 1; the same request without retry budget ends in
  \<open>RetryError\<close> and leaves the queue.
\<close>

theorem retry_policy_witness:
  "fst (process_priority_queue always_raises NORMAL failing_example) = Inr () \<and>
   queues (snd (process_priority_queue always_raises NORMAL failing_example)) NORMAL =
     [(example_request ''req_1000_1'' 11 NORMAL)\<lparr>retry_count := 1\<rparr>] \<and>
   total_retries (stats (snd (process_priority_queue always_raises NORMAL failing_example)))
     = 1 \<and>
   fst (process_sync always_raises failing_example) = Inr () \<and>
   queues (snd (process_sync always_raises failing_example)) NORMAL =
     [(example_request ''req_1000_1'' 11 NORMAL)\<lparr>retry_count := 1\<rparr>] \<and>
   total_retries (stats (snd (process_sync always_raises failing_example))) = 1 \<and>
   fst (process_priority_queue always_raises NORMAL no_retry_example) =
     Inl (RetryError 0 (ExternalError ''boom'')) \<and>
   queues (snd (process_priority_queue always_raises NORMAL no_retry_example)) NORMAL = [] \<and>
   fst (process_sync always_raises no_retry_example) =
     Inl (RetryError 0 (ExternalError ''boom'')) \<and>
   queues (snd (process_sync always_raises no_retry_example)) NORMAL = [] \<and>
   qm_reachable (snd (process_priority_queue always_raises NORMAL failing_example)) \<and>
   retry_count ((example_request ''req_1000_1'' 11 NORMAL)\<lparr>retry_count := 1\<rparr>)
     \<le> max_retries ((example_request ''req_1000_1'' 11 NORMAL)\<lparr>retry_count := 1\<rparr>)"
proof -
  let ?r = "example_request ''req_1000_1'' 11 NORMAL"
  let ?rz = "(example_request ''req_1000_1'' 11 NORMAL)\<lparr>max_retries := 0\<rparr>"
  let ?e = "ExternalError ''boom''"
  let ?w = "snd (wait_for_quota (failing_example
        \<lparr>queues := (queues failing_example)(NORMAL := []),
         rate_limit_handler := init_handler\<rparr>))"
  let ?wz = "snd (wait_for_quota (no_retry_example
        \<lparr>queues := (queues no_retry_example)(NORMAL := []),
         rate_limit_handler := init_handler\<rparr>))"
  let ?post = "snd (process_priority_queue always_raises NORMAL failing_example)"
  have sel: "selected failing_example NORMAL"
    and adm: "admitted failing_example NORMAL ?r [] init_handler ?w"
    using failing_example_admitted by blast+
  have sel0: "selected no_retry_example NORMAL"
    and adm0: "admitted no_retry_example NORMAL ?rz [] init_handler ?wz"
    using no_retry_example_admitted by blast+
  have run: "always_raises ?r = Some ?e" and run0: "always_raises ?rz = Some ?e"
    by (simp_all add: always_raises_def)
  have lt: "retry_count ?r < max_retries ?r" and ge: "\<not> retry_count ?rz < max_retries ?rz"
    by (simp_all add: example_request_def)
  have reach: "qm_reachable ?post"
    by (rule qm_reachable.r_async [OF failing_example_reachable])
  have vals: "retry_target ?r = NORMAL"
    "?r\<lparr>retry_count := retry_count ?r + 1, priority := NORMAL\<rparr> = ?r\<lparr>retry_count := 1\<rparr>"
    "max_retries ?rz = 0" "total_retries (stats failing_example) = 0"
    "(if ?e = AsyncioTimeoutError then RequestTimeoutError 30 else ?e) = ?e"
    by (simp_all add: retry_target_def example_request_def failing_example_state
        fresh_manager_def)
  note first = retry_policy [where request = ?r and err = ?e and s = failing_example
      and s' = ?post and d = failing_example and p = NORMAL and rest = "[]"
      and h = init_handler and w = ?w and run = always_raises and cause = ?e]
  note last = retry_policy [where request = ?rz and err = ?e and s = no_retry_example
      and s' = ?post and d = no_retry_example and p = NORMAL and rest = "[]"
      and h = init_handler and w = ?wz and run = always_raises and cause = ?e]
  note tail4 = first [THEN conjunct2, THEN conjunct2, THEN conjunct2]
  note tail9 = tail4 [THEN conjunct2, THEN conjunct2, THEN conjunct2, THEN conjunct2,
      THEN conjunct2]
  note last9 = last [THEN conjunct2, THEN conjunct2, THEN conjunct2, THEN conjunct2,
      THEN conjunct2, THEN conjunct2, THEN conjunct2, THEN conjunct2]
  have pre: "admitted failing_example NORMAL ?r [] init_handler ?w \<and>
      always_raises ?r = Some ?e \<and> retry_count ?r < max_retries ?r"
    using adm run lt by (intro conjI)
  have pre_sync: "selected failing_example NORMAL \<and>
      admitted failing_example NORMAL ?r [] init_handler ?w \<and>
      always_raises ?r = Some ?e \<and> retry_count ?r < max_retries ?r"
    using sel adm run lt by (intro conjI)
  have prez: "admitted no_retry_example NORMAL ?rz [] init_handler ?wz \<and>
      always_raises ?rz = Some ?e \<and> \<not> retry_count ?rz < max_retries ?rz"
    using adm0 run0 ge by (intro conjI)
  have prez_sync: "selected no_retry_example NORMAL \<and>
      admitted no_retry_example NORMAL ?rz [] init_handler ?wz \<and>
      always_raises ?rz = Some ?e \<and> \<not> retry_count ?rz < max_retries ?rz"
    using sel0 adm0 run0 ge by (intro conjI)
  note a = tail9 [THEN conjunct1, THEN mp, OF pre]
  note b = tail9 [THEN conjunct2, THEN conjunct2, THEN conjunct1, THEN mp, OF pre_sync]
  note c = last9 [THEN conjunct2, THEN conjunct1, THEN mp, OF prez]
  note d = last9 [THEN conjunct2, THEN conjunct2, THEN conjunct2, THEN mp, OF prez_sync]
  note all_ok = tail4 [THEN conjunct1, THEN mp, OF reach]
  have qn: "queues ?post NORMAL = [?r\<lparr>retry_count := 1\<rparr>]"
    using a [THEN conjunct2, THEN conjunct1] by (simp add: vals)
  have "?r\<lparr>retry_count := 1\<rparr> \<in> set (queues ?post NORMAL)" by (simp only: qn list.set insertI1)
  with all_ok have e: "retry_count (?r\<lparr>retry_count := 1\<rparr>) \<le> max_retries (?r\<lparr>retry_count := 1\<rparr>)"
    by blast
  have a': "fst (process_priority_queue always_raises NORMAL failing_example) = Inr ()"
    "total_retries (stats ?post) = 1"
    using a by (simp_all add: vals)
  have b': "fst (process_sync always_raises failing_example) = Inr ()"
    "queues (snd (process_sync always_raises failing_example)) NORMAL = [?r\<lparr>retry_count := 1\<rparr>]"
    "total_retries (stats (snd (process_sync always_raises failing_example))) = 1"
    using b by (simp_all add: vals)
  have c': "fst (process_priority_queue always_raises NORMAL no_retry_example) =
      Inl (RetryError 0 ?e)"
    "queues (snd (process_priority_queue always_raises NORMAL no_retry_example)) NORMAL = []"
    using c by (simp_all add: vals)
  have d': "fst (process_sync always_raises no_retry_example) = Inl (RetryError 0 ?e)"
    "queues (snd (process_sync always_raises no_retry_example)) NORMAL = []"
    using d by (simp_all add: vals)
  from a' qn b' c' d' reach e show ?thesis by (intro conjI)
qed

text \<open>
  On a full queue \<open>enqueue\<close> changes nothing, and the error its caller receives is
  \<open>LockError\<close>: the \<open>QueueFullError\<close> raised by the capacity check is caught by the
  enclosing \<open>except Exception\<close>.
\<close>

lemma enqueue_full_has_no_effect:
  assumes "0 \<le> tokens_arg" and "0 \<le> retries_arg" and "max_queue_size s \<le> queue_total s"
  shows "queue_full_check s = Inl (QueueFullError (queue_total s) (max_queue_size s)) \<and>
         enqueue func priority_arg tokens_arg retries_arg s = (Inl LockError, s)"
  using assms by (simp add: enqueue_def queue_full_check_def Let_def)

lemma full_example_reachable: "qm_reachable full_example"
proof -
  have "qm_reachable (fresh_manager 2)"
    by (rule qm_reachable.r_init [OF fresh_manager_init]) simp
  then show ?thesis
    unfolding full_example_def by (intro qm_reachable.r_enqueue)
qed

lemma full_example_state:
  "full_example =
     (fresh_manager 2)
       \<lparr>queues := (\<lambda>p. [])
          (LOW := [example_request ''req_1000_1'' 11 LOW],
           HIGH := [example_request ''req_1000_2'' 12 HIGH]),
        processing := True, request_counter := 2,
        stats := \<lparr>total_queued = 2, total_processed = 0, total_failed = 0,
                  total_retries = 0\<rparr>\<rparr>"
  by (simp add: full_example_def enqueue_def queue_full_check_def queue_total_def
      generate_request_id_def start_processing_def fresh_manager_def Let_def py_trunc_def
      str_int_small parse_priority_examples example_request_def)

text \<open>
  Claim C7. A manager of capacity 2 holding two requests: the capacity check raises
  \<open>QueueFullError(2, 2)\<close>, as the docstring of \<open>enqueue\<close> announces, but the caller of
  \<open>enqueue\<close> receives \<open>LockError\<close>. The state is unchanged: no queue, statistic or
  request-id counter moves.
\<close>

theorem enqueue_on_full_queue_raises_lock_error:
  "qm_reachable full_example \<and>
   queue_total full_example = 2 \<and> max_queue_size full_example = 2 \<and>
   queue_full_check full_example = Inl (QueueFullError 2 2) \<and>
   enqueue 7 ''normal'' 0 3 full_example = (Inl LockError, full_example)"
proof -
  have t: "queue_total full_example = 2"
    by (simp add: queue_total_def full_example_state)
  have m: "max_queue_size full_example = 2"
    by (simp add: full_example_state fresh_manager_def)
  have c: "queue_full_check full_example = Inl (QueueFullError 2 2)"
    by (simp add: queue_full_check_def t m)
  have e: "enqueue 7 ''normal'' 0 3 full_example = (Inl LockError, full_example)"
    by (simp add: enqueue_def c)
  show ?thesis using full_example_reachable t m c e by simp
qed

end
